theory Spec2Isabelle
  imports Main "HOL-Library.Sublist"
begin

section \<open>Text\<close>

text \<open>
  Python strings are modelled as lists of 8-bit characters, read as the code points
  0..255 (ASCII and Latin-1). The helpers below follow the \<^verbatim>\<open>str\<close> methods the
  program calls, restricted to that range.
\<close>

abbreviation newline :: char where "newline \<equiv> CHR 0x0A"
abbreviation carriage_return :: char where "carriage_return \<equiv> CHR 0x0D"
abbreviation squote :: char where "squote \<equiv> CHR 0x27"
abbreviation backslash :: char where "backslash \<equiv> CHR 0x5C"

definition is_space :: "char \<Rightarrow> bool" where
  \<comment> \<open>\<^verbatim>\<open>str.isspace\<close> on one character below 256\<close>
  "is_space c =
     (let n = (of_char c :: nat)
      in (9 \<le> n \<and> n \<le> 13) \<or> (28 \<le> n \<and> n \<le> 32) \<or> n = 133 \<or> n = 160)"

definition is_upper :: "char \<Rightarrow> bool" where
  "is_upper c =
     (let n = (of_char c :: nat)
      in (65 \<le> n \<and> n \<le> 90) \<or> (192 \<le> n \<and> n \<le> 222 \<and> n \<noteq> 215))"

definition lower_char :: "char \<Rightarrow> char" where
  \<comment> \<open>an upper-case letter below 256 becomes lower case by setting bit 5 (adding 32)\<close>
  "lower_char c =
     (if is_upper c
      then Char (digit0 c) (digit1 c) (digit2 c) (digit3 c) (digit4 c) True (digit6 c) (digit7 c)
      else c)"

definition py_lower :: "string \<Rightarrow> string" where
  "py_lower s = map lower_char s"

definition py_strip :: "string \<Rightarrow> string" where
  "py_strip s = rev (dropWhile is_space (rev (dropWhile is_space s)))"

fun contains :: "string \<Rightarrow> string \<Rightarrow> bool" where
  \<comment> \<open>\<^verbatim>\<open>sub in s\<close>\<close>
  "contains sub [] = (sub = [])"
| "contains sub (c # cs) = (prefix sub (c # cs) \<or> contains sub cs)"

fun split_on :: "char \<Rightarrow> string \<Rightarrow> string list" where
  \<comment> \<open>\<^verbatim>\<open>s.split(sep)\<close> for a one-character separator\<close>
  "split_on sep [] = [[]]"
| "split_on sep (c # cs) =
     (if c = sep then [] # split_on sep cs
      else (case split_on sep cs of [] \<Rightarrow> [[c]] | t # ts \<Rightarrow> (c # t) # ts))"

primrec split_ws :: "nat \<Rightarrow> string \<Rightarrow> string list" where
  \<comment> \<open>\<^verbatim>\<open>s.split(None, maxsplit)\<close>\<close>
  "split_ws 0 s = (let s1 = dropWhile is_space s in if s1 = [] then [] else [s1])"
| "split_ws (Suc m) s =
     (let s1 = dropWhile is_space s
      in if s1 = [] then []
         else takeWhile (\<lambda>c. \<not> is_space c) s1 # split_ws m (dropWhile (\<lambda>c. \<not> is_space c) s1))"

definition is_linebreak :: "char \<Rightarrow> bool" where
  "is_linebreak c =
     (let n = (of_char c :: nat) in (10 \<le> n \<and> n \<le> 13) \<or> (28 \<le> n \<and> n \<le> 30) \<or> n = 133)"

fun splitlines_from :: "string \<Rightarrow> string \<Rightarrow> string list" where
  "splitlines_from cur [] = (if cur = [] then [] else [cur])"
| "splitlines_from cur (c # cs) =
     (if c = carriage_return
      then (case cs of
              [] \<Rightarrow> [cur]
            | d # ds \<Rightarrow> if d = newline then cur # splitlines_from [] ds
                        else cur # splitlines_from [] (d # ds))
      else if is_linebreak c then cur # splitlines_from [] cs
      else splitlines_from (cur @ [c]) cs)"

definition py_splitlines :: "string \<Rightarrow> string list" where
  "py_splitlines s = splitlines_from [] s"

fun join :: "string \<Rightarrow> string list \<Rightarrow> string" where
  \<comment> \<open>\<^verbatim>\<open>sep.join(parts)\<close>\<close>
  "join sep [] = []"
| "join sep [p] = p"
| "join sep (p # q # ps) = p @ sep @ join sep (q # ps)"

fun show_nat :: "nat \<Rightarrow> string" where
  \<comment> \<open>\<^verbatim>\<open>str(n)\<close> for a non-negative integer\<close>
  "show_nat n =
     (if n < 10 then [''0123456789'' ! n]
      else show_nat (n div 10) @ [''0123456789'' ! (n mod 10)])"

declare show_nat.simps [simp del]

fun hex_nat :: "nat \<Rightarrow> string" where
  "hex_nat n =
     (if n < 16 then [''0123456789ABCDEF'' ! n]
      else hex_nat (n div 16) @ [''0123456789ABCDEF'' ! (n mod 16)])"

declare hex_nat.simps [simp del]

definition zfill :: "nat \<Rightarrow> string \<Rightarrow> string" where
  "zfill width s = replicate (width - length s) (CHR ''0'') @ s"

definition format_08X :: "int \<Rightarrow> string" where
  \<comment> \<open>\<^verbatim>\<open>f"{hr:08X}"\<close>: the sign counts towards the width of eight\<close>
  "format_08X hr =
     (if hr < 0 then ''-'' @ zfill 7 (hex_nat (nat (- hr))) else zfill 8 (hex_nat (nat hr)))"

definition is_digit :: "char \<Rightarrow> bool" where
  "is_digit c = (let n = (of_char c :: nat) in 48 \<le> n \<and> n \<le> 57)"

fun digits_ok :: "bool \<Rightarrow> string \<Rightarrow> bool" where
  \<comment> \<open>digit groups separated by single underscores; the flag says that a digit came last\<close>
  "digits_ok after_digit [] = after_digit"
| "digits_ok after_digit (c # cs) =
     (if is_digit c then digits_ok True cs
      else if c = CHR ''_'' then after_digit \<and> cs \<noteq> [] \<and> is_digit (hd cs) \<and> digits_ok False cs
      else False)"

fun digits_value :: "nat \<Rightarrow> string \<Rightarrow> nat" where
  "digits_value acc [] = acc"
| "digits_value acc (c # cs) =
     (if is_digit c then digits_value (10 * acc + (of_char c - 48)) cs
      else digits_value acc cs)"

definition py_int :: "string \<Rightarrow> int option" where
  \<comment> \<open>\<^verbatim>\<open>int(s)\<close>: \<open>None\<close> stands for \<^verbatim>\<open>ValueError\<close>\<close>
  "py_int s =
     (let t = py_strip s;
          neg = (t \<noteq> [] \<and> hd t = CHR ''-'');
          body = (if t \<noteq> [] \<and> (hd t = CHR ''-'' \<or> hd t = CHR ''+'') then tl t else t)
      in if digits_ok False body
         then Some (if neg then - int (digits_value 0 body) else int (digits_value 0 body))
         else None)"

definition path_join :: "string \<Rightarrow> string \<Rightarrow> string" where
  \<comment> \<open>\<^verbatim>\<open>os.path.join(a, b)\<close> on Windows for a relative, drive-less \<open>b\<close>\<close>
  "path_join a b =
     (if a = [] then b
      else if last a \<in> set [backslash, CHR ''/'', CHR '':''] then a @ b
      else a @ [backslash] @ b)"

section \<open>The program's world\<close>

text \<open>
  Exceptions are values. \<open>SystemExit\<close> and \<open>KeyboardInterrupt\<close> are the faults that
  are not instances of Python's \<^verbatim>\<open>Exception\<close> class, so \<^verbatim>\<open>except Exception\<close> lets
  them pass.
\<close>

datatype fault = EOFError | TypeError | OSError string | SystemExit | KeyboardInterrupt

fun is_Exception :: "fault \<Rightarrow> bool" where
  "is_Exception SystemExit = False"
| "is_Exception KeyboardInterrupt = False"
| "is_Exception _ = True"

datatype syscall =
    PathExists string
  | Walk string
  | Remove string
  | Rmdir string
  | Mkdir string
  | SHEmptyRecycleBinW nat
  | SubprocessRun "string list"

fun mutating :: "syscall \<Rightarrow> bool" where
  "mutating (PathExists _) = False"
| "mutating (Walk _) = False"
| "mutating _ = True"

datatype event = Print string | Write string | Prompt string | Call syscall

datatype proc_result =
    Completed string
  | CalledProcessError string string
  | Raised fault

text \<open>
  The operating system is an oracle: every answer may depend on all the events so far.
  \<open>CalledProcessError stderr text\<close> carries the captured standard error and
  \<^verbatim>\<open>str(ex)\<close>; \<open>mkdir_result\<close> and \<open>sh_empty_recycle_bin\<close> give \<^verbatim>\<open>str(ex)\<close> of the
  exception when the call raises; \<open>spinner_ticks\<close> gives the elapsed seconds shown at
  each repaint of the progress line, which depends on timing only.
\<close>

record os_model =
  environ :: "string \<Rightarrow> string option"
  gettempdir :: string
  abspath :: "string \<Rightarrow> string"
  home_dir :: string
  path_exists :: "event list \<Rightarrow> string \<Rightarrow> bool"
  walk_bottom_up :: "event list \<Rightarrow> string \<Rightarrow> (string \<times> string list \<times> string list) list"
  remove_ok :: "event list \<Rightarrow> string \<Rightarrow> bool"
  rmdir_ok :: "event list \<Rightarrow> string \<Rightarrow> bool"
  mkdir_result :: "event list \<Rightarrow> string \<Rightarrow> string option"
  sh_empty_recycle_bin :: "event list \<Rightarrow> string + int"
  subprocess_run :: "event list \<Rightarrow> string list \<Rightarrow> proc_result"
  spinner_ticks :: "event list \<Rightarrow> nat list"

record world =
  os :: os_model
  stdin :: "string list"
  trace :: "event list"
  launched_interactive :: bool

type_synonym 'a io = "world \<Rightarrow> (fault + 'a) \<times> world"

definition log :: "event \<Rightarrow> world \<Rightarrow> world" where
  "log e w = w\<lparr>trace := trace w @ [e]\<rparr>"

definition return :: "'a \<Rightarrow> 'a io" where
  "return x w = (Inr x, w)"

definition bind :: "'a io \<Rightarrow> ('a \<Rightarrow> 'b io) \<Rightarrow> 'b io" where
  \<comment> \<open>statement sequencing: a raised fault skips the rest\<close>
  "bind m f w = (case m w of (Inl ex, w1) \<Rightarrow> (Inl ex, w1) | (Inr x, w1) \<Rightarrow> f x w1)"

definition seq :: "unit io \<Rightarrow> unit io \<Rightarrow> unit io" where
  "seq m k = bind m (\<lambda>_. k)"

definition py_print :: "string \<Rightarrow> unit io" where
  "py_print s w = (Inr (), log (Print s) w)"

definition py_input :: "string \<Rightarrow> string io" where
  \<comment> \<open>\<^verbatim>\<open>input(prompt)\<close>: shows the prompt, then reads a line or raises at end of stream\<close>
  "py_input prompt w =
     (let w1 = log (Prompt prompt) w
      in case stdin w of
           [] \<Rightarrow> (Inl EOFError, w1)
         | l # ls \<Rightarrow> (Inr l, w1\<lparr>stdin := ls\<rparr>))"

section \<open>Confirmation gate\<close>

definition ensure_confirm :: "string \<Rightarrow> bool \<Rightarrow> bool io" where
  "ensure_confirm prompt assume_yes w =
     (if assume_yes then (Inr True, w)
      else case py_input (prompt @ '' [y/N]: '') w of
             (Inl ex, w1) \<Rightarrow> if ex = EOFError then (Inr False, w1) else (Inl ex, w1)
           | (Inr l, w1) \<Rightarrow>
               (let ans = py_lower (py_strip l) in (Inr (ans \<in> set [''y'', ''yes'']), w1)))"

section \<open>Action primitives\<close>

type_synonym action_result = "bool \<times> string"

definition get_temp_dir :: "os_model \<Rightarrow> string" where
  \<comment> \<open>\<^verbatim>\<open>TEMP or TMP or tempfile.gettempdir()\<close>: an unset or empty variable is falsy\<close>
  "get_temp_dir sys =
     abspath sys
       (case environ sys ''TEMP'' of
          Some t \<Rightarrow> if t \<noteq> [] then t
                    else (case environ sys ''TMP'' of
                            Some u \<Rightarrow> if u \<noteq> [] then u else gettempdir sys
                          | None \<Rightarrow> gettempdir sys)
        | None \<Rightarrow> (case environ sys ''TMP'' of
                      Some u \<Rightarrow> if u \<noteq> [] then u else gettempdir sys
                    | None \<Rightarrow> gettempdir sys))"

definition SHERB_NOCONFIRMATION :: nat where "SHERB_NOCONFIRMATION = 1"
definition SHERB_NOPROGRESSUI :: nat where "SHERB_NOPROGRESSUI = 2"
definition SHERB_NOSOUND :: nat where "SHERB_NOSOUND = 4"

definition empty_recycle_bin :: "bool \<Rightarrow> action_result io" where
  "empty_recycle_bin dry_run w =
     (if dry_run then (Inr (True, ''Dry-run: would call SHEmptyRecycleBinW for all drives.''), w)
      else
        (let flags = or SHERB_NOCONFIRMATION (or SHERB_NOPROGRESSUI SHERB_NOSOUND);
             w1 = log (Call (SHEmptyRecycleBinW flags)) w
         in case sh_empty_recycle_bin (os w) (trace w) of
              Inr hr \<Rightarrow>
                if hr = 0 then (Inr (True, ''Recycle Bin emptied.''), w1)
                else (Inr (False, ''SHEmptyRecycleBinW returned HRESULT 0x'' @ format_08X hr), w1)
            | Inl text \<Rightarrow> (Inr (False, ''Exception calling SHEmptyRecycleBinW: '' @ text), w1)))"

definition subprocess :: "string list \<Rightarrow> world \<Rightarrow> proc_result \<times> world" where
  \<comment> \<open>\<^verbatim>\<open>subprocess.run(cmd, check=True, capture_output=True, text=True)\<close>\<close>
  "subprocess cmd w = (subprocess_run (os w) (trace w) cmd, log (Call (SubprocessRun cmd)) w)"

fun parse_adapters :: "bool \<Rightarrow> string list \<Rightarrow> string list" where
  "parse_adapters started [] = []"
| "parse_adapters started (ln # lns) =
     (if \<not> started then
        (if contains ''Admin State'' ln \<and> contains ''State'' ln \<and> contains ''Type'' ln
            \<and> contains ''Interface Name'' ln
         then parse_adapters True lns
         else parse_adapters False lns)
      else if py_strip ln = [] then parse_adapters True lns
      else
        (let parts = split_ws 3 ln
         in if length parts = 4 then py_strip (parts ! 3) # parse_adapters True lns
            else parse_adapters True lns))"

definition list_network_adapters :: "string list io" where
  "list_network_adapters w =
     (case subprocess [''netsh'', ''interface'', ''show'', ''interface''] w of
        (Completed out, w1) \<Rightarrow> (Inr (parse_adapters False (py_splitlines out)), w1)
      | (CalledProcessError err text, w1) \<Rightarrow> (Inr [], w1)
      | (Raised ex, w1) \<Rightarrow> (Inl ex, w1))"

definition restart_adapter :: "string \<Rightarrow> bool \<Rightarrow> action_result io" where
  "restart_adapter adapter_name dry_run w =
     (if dry_run
      then (Inr (True, ''Dry-run: would restart adapter '' @ [squote] @ adapter_name @ [squote] @ ''.''), w)
      else
        (case subprocess [''netsh'', ''interface'', ''set'', ''interface'', adapter_name, ''admin=DISABLED''] w of
           (Raised ex, w1) \<Rightarrow> (Inl ex, w1)
         | (CalledProcessError err text, w1) \<Rightarrow>
             (Inr (False, ''Command failed for '' @ [squote] @ adapter_name @ [squote] @ '': ''
                            @ (if err \<noteq> [] then err else text)), w1)
         | (Completed out, w1) \<Rightarrow>
             (case subprocess [''netsh'', ''interface'', ''set'', ''interface'', adapter_name, ''admin=ENABLED''] w1 of
                (Raised ex, w2) \<Rightarrow> (Inl ex, w2)
              | (CalledProcessError err text, w2) \<Rightarrow>
                  (Inr (False, ''Command failed for '' @ [squote] @ adapter_name @ [squote] @ '': ''
                                 @ (if err \<noteq> [] then err else text)), w2)
              | (Completed out2, w2) \<Rightarrow>
                  (Inr (True, ''Adapter '' @ [squote] @ adapter_name @ [squote] @ '' restarted.''), w2))))"

definition tcp_commands :: "string list list" where
  "tcp_commands =
     [[''netsh'', ''int'', ''tcp'', ''set'', ''global'', ''autotuninglevel=normal''],
      [''netsh'', ''int'', ''tcp'', ''set'', ''global'', ''rss=enabled''],
      [''netsh'', ''int'', ''tcp'', ''set'', ''global'', ''chimney=disabled''],
      [''netsh'', ''int'', ''tcp'', ''set'', ''global'', ''ecncapability=disabled''],
      [''netsh'', ''int'', ''tcp'', ''set'', ''heuristics'', ''disabled'']]"

fun tcp_loop :: "string list list \<Rightarrow> string list \<Rightarrow> string list io" where
  \<comment> \<open>the \<^verbatim>\<open>for cmd in commands\<close> loop, threading \<open>out_lines\<close>\<close>
  "tcp_loop [] out_lines w = (Inr out_lines, w)"
| "tcp_loop (cmd # cmds) out_lines w =
     (case subprocess cmd w of
        (Completed out, w1) \<Rightarrow> tcp_loop cmds (out_lines @ [''OK: '' @ join '' '' cmd]) w1
      | (CalledProcessError err text, w1) \<Rightarrow>
          tcp_loop cmds
            (out_lines @ [''FAILED: '' @ join '' '' cmd @ '' -> '' @ (if err \<noteq> [] then err else text)]) w1
      | (Raised ex, w1) \<Rightarrow> (Inl ex, w1))"

definition apply_tcp_optimizations :: "bool \<Rightarrow> action_result io" where
  "apply_tcp_optimizations dry_run w =
     (if dry_run
      then (Inr (True, ''Dry-run: would run netsh commands:'' @ [newline]
                        @ join [newline] (map (join '' '') tcp_commands)), w)
      else
        (case tcp_loop tcp_commands [] w of
           (Inl ex, w1) \<Rightarrow> (Inl ex, w1)
         | (Inr out_lines, w1) \<Rightarrow> (Inr (True, join [newline] out_lines), w1)))"

fun clean_files :: "bool \<Rightarrow> string \<Rightarrow> string list \<Rightarrow> nat \<times> nat \<Rightarrow> world \<Rightarrow> (nat \<times> nat) \<times> world" where
  \<comment> \<open>the \<^verbatim>\<open>for name in files\<close> loop on the counters \<open>(deleted, failed)\<close>\<close>
  "clean_files dry_run root [] counts w = (counts, w)"
| "clean_files dry_run root (name # names) (deleted, failed) w =
     (let fp = path_join root name
      in if dry_run then clean_files dry_run root names (deleted + 1, failed) w
         else if remove_ok (os w) (trace w) fp
         then clean_files dry_run root names (deleted + 1, failed) (log (Call (Remove fp)) w)
         else clean_files dry_run root names (deleted, failed + 1) (log (Call (Remove fp)) w))"

fun clean_dirs :: "bool \<Rightarrow> string \<Rightarrow> string list \<Rightarrow> nat \<times> nat \<Rightarrow> world \<Rightarrow> (nat \<times> nat) \<times> world" where
  \<comment> \<open>the \<^verbatim>\<open>for d in dirs\<close> loop: a failed \<^verbatim>\<open>rmdir\<close> is passed over\<close>
  "clean_dirs dry_run root [] counts w = (counts, w)"
| "clean_dirs dry_run root (d # ds) (deleted, failed) w =
     (let dp = path_join root d
      in if dry_run then clean_dirs dry_run root ds (deleted + 1, failed) w
         else if rmdir_ok (os w) (trace w) dp
         then clean_dirs dry_run root ds (deleted + 1, failed) (log (Call (Rmdir dp)) w)
         else clean_dirs dry_run root ds (deleted, failed) (log (Call (Rmdir dp)) w))"

fun clean_walk :: "bool \<Rightarrow> (string \<times> string list \<times> string list) list \<Rightarrow> nat \<times> nat \<Rightarrow> world
    \<Rightarrow> (nat \<times> nat) \<times> world" where
  "clean_walk dry_run [] counts w = (counts, w)"
| "clean_walk dry_run ((root, dirs, files) # rest) counts w =
     (case clean_files dry_run root files counts w of
        (counts1, w1) \<Rightarrow>
          (case clean_dirs dry_run root dirs counts1 w1 of
             (counts2, w2) \<Rightarrow> clean_walk dry_run rest counts2 w2))"

definition clean_temp_dir :: "bool \<Rightarrow> action_result io" where
  "clean_temp_dir dry_run w =
     (let temp_dir = get_temp_dir (os w);
          w1 = log (Call (PathExists temp_dir)) w
      in if \<not> path_exists (os w) (trace w) temp_dir
         then (Inr (False, ''Temp directory '' @ [squote] @ temp_dir @ [squote] @ '' does not exist.''), w1)
         else
           (case clean_walk dry_run (walk_bottom_up (os w1) (trace w1) temp_dir) (0, 0)
                   (log (Call (Walk temp_dir)) w1) of
              ((deleted, failed), w2) \<Rightarrow>
                (Inr (True, ''Planned deletions: '' @ show_nat deleted @ ''. Failed deletions: ''
                             @ show_nat failed @ ''.''), w2)))"

subsection \<open>Wi-Fi profiles\<close>

text \<open>
  The two regular expressions have one shape, \<^verbatim>\<open>LITERAL\s*:\s*(.+)\<close>. After the
  literal and the colon, the greedy \<^verbatim>\<open>\s*\<close> takes every white-space character; the group then
  takes what follows up to the next newline. When nothing follows, \<^verbatim>\<open>\s*\<close> gives back
  characters from its end until the group can start on one that is not a newline.
\<close>

definition re_tail :: "string \<Rightarrow> string option" where
  "re_tail s =
     (case dropWhile is_space s of
        [] \<Rightarrow> None
      | c # r \<Rightarrow>
          if c \<noteq> CHR '':'' then None
          else if dropWhile is_space r \<noteq> []
          then Some (takeWhile (\<lambda>c. c \<noteq> newline) (dropWhile is_space r))
          else (case dropWhile (\<lambda>c. c = newline) (rev (takeWhile is_space r)) of
                  [] \<Rightarrow> None
                | d # ds \<Rightarrow> Some [d]))"

fun re_search :: "string \<Rightarrow> string \<Rightarrow> string option" where
  \<comment> \<open>\<^verbatim>\<open>re.search\<close>: group 1 of the leftmost match\<close>
  "re_search lit [] = (if lit = [] then re_tail [] else None)"
| "re_search lit (c # cs) =
     (case (if prefix lit (c # cs) then re_tail (drop (length lit) (c # cs)) else None) of
        Some g \<Rightarrow> Some g
      | None \<Rightarrow> re_search lit cs)"

fun profile_names :: "string list \<Rightarrow> string list" where
  "profile_names [] = []"
| "profile_names (ln # lns) =
     (case re_search ''All User Profile'' ln of
        Some g \<Rightarrow> py_strip g # profile_names lns
      | None \<Rightarrow> profile_names lns)"

definition list_wifi_profiles :: "string list io" where
  "list_wifi_profiles w =
     (case subprocess [''netsh'', ''wlan'', ''show'', ''profiles''] w of
        (Completed out, w1) \<Rightarrow> (Inr (profile_names (py_splitlines out)), w1)
      | (CalledProcessError err text, w1) \<Rightarrow> (Inr [], w1)
      | (Raised ex, w1) \<Rightarrow> (Inl ex, w1))"

definition get_wifi_password :: "string \<Rightarrow> action_result io" where
  "get_wifi_password profile w =
     (case subprocess [''netsh'', ''wlan'', ''show'', ''profile'', profile, ''key=clear''] w of
        (Completed out, w1) \<Rightarrow>
          (case re_search ''Key Content'' out of
             Some g \<Rightarrow> (Inr (True, py_strip g), w1)
           | None \<Rightarrow> (Inr (False, ''No password stored (open network or not available).''), w1))
      | (CalledProcessError err text, w1) \<Rightarrow> (Inr (False, ''Failed to query profile: '' @ text), w1)
      | (Raised ex, w1) \<Rightarrow> (Inl ex, w1))"

fun wifi_loop :: "string list \<Rightarrow> string list \<Rightarrow> string list io" where
  "wifi_loop [] out_lines w = (Inr out_lines, w)"
| "wifi_loop (p # ps) out_lines w =
     (case get_wifi_password p w of
        (Inl ex, w1) \<Rightarrow> (Inl ex, w1)
      | (Inr (ok, pw), w1) \<Rightarrow> wifi_loop ps (out_lines @ [p @ '': '' @ pw]) w1)"

definition show_wifi_passwords :: "bool \<Rightarrow> action_result io" where
  "show_wifi_passwords dry_run w =
     (if dry_run
      then (Inr (True, ''Dry-run: would list saved Wi-Fi profiles and their passwords.''), w)
      else
        (case list_wifi_profiles w of
           (Inl ex, w1) \<Rightarrow> (Inl ex, w1)
         | (Inr profiles, w1) \<Rightarrow>
             if profiles = []
             then (Inr (False, ''No Wi-Fi profiles found or failed to query profiles.''), w1)
             else (case wifi_loop profiles [] w1 of
                     (Inl ex, w2) \<Rightarrow> (Inl ex, w2)
                   | (Inr out_lines, w2) \<Rightarrow> (Inr (True, join [newline] out_lines), w2))))"

subsection \<open>God Mode folder\<close>

definition create_god_mode :: "bool \<Rightarrow> action_result io" where
  "create_god_mode dry_run w =
     (let desktop = path_join (home_dir (os w)) ''Desktop'';
          guid = ''GodMode.{ED7BA470-8E54-465E-825C-99712043E01C}'';
          path = path_join desktop guid
      in if dry_run then (Inr (True, ''Dry-run: would create '' @ [squote] @ path @ [squote]), w)
         else
           (let w1 = log (Call (PathExists desktop)) w
            in if \<not> path_exists (os w) (trace w) desktop
               then (Inr (False, ''Desktop path not found: '' @ desktop), w1)
               else
                 (let w2 = log (Call (PathExists path)) w1
                  in if \<not> path_exists (os w1) (trace w1) path
                     then (case mkdir_result (os w2) (trace w2) path of
                             None \<Rightarrow> (Inr (True, ''Created God Mode folder: '' @ path), log (Call (Mkdir path)) w2)
                           | Some text \<Rightarrow>
                               (Inr (False, ''Failed to create God Mode folder: '' @ text),
                                log (Call (Mkdir path)) w2))
                     else (Inr (True, ''God Mode folder already exists: '' @ path), w2))))"

section \<open>Progress runner\<close>

text \<open>
  The worker thread and the indicator are modelled in sequence: the events of the wrapped
  function are logged first, then the lines the indicator wrote while it ran, then the
  clearing of the line. The worker stores the value, or the exception when it is an
  \<^verbatim>\<open>Exception\<close>; any other fault ends the worker with nothing stored, and the
  runner then returns \<^verbatim>\<open>None\<close>.
\<close>

fun spinner_frames :: "string \<Rightarrow> nat \<Rightarrow> nat list \<Rightarrow> event list" where
  "spinner_frames pfx i [] = []"
| "spinner_frames pfx i (elapsed # rest) =
     Write ([carriage_return] @ pfx @ '' '' @ [[CHR ''|'', CHR ''/'', CHR ''-'', backslash] ! (i mod 4)]
            @ '' Elapsed: '' @ show_nat elapsed @ ''s'')
     # spinner_frames pfx (Suc i) rest"

definition spinner_worker :: "string \<Rightarrow> world \<Rightarrow> world" where
  "spinner_worker pfx w =
     w\<lparr>trace := trace w @ spinner_frames pfx 0 (spinner_ticks (os w) (trace w))
                 @ [Write ([carriage_return] @ replicate 80 (CHR '' '') @ [carriage_return])]\<rparr>"

definition run_with_spinner :: "'a io \<Rightarrow> string \<Rightarrow> 'a option io" where
  "run_with_spinner func pfx w =
     (case func w of
        (Inr v, w1) \<Rightarrow> (Inr (Some v), spinner_worker pfx w1)
      | (Inl ex, w1) \<Rightarrow>
          if is_Exception ex then (Inl ex, spinner_worker pfx w1)
          else (Inr None, spinner_worker pfx w1))"

definition unpack :: "action_result option \<Rightarrow> action_result io" where
  \<comment> \<open>\<^verbatim>\<open>ok, msg = ...\<close>: unpacking \<^verbatim>\<open>None\<close> raises\<close>
  "unpack r w = (case r of None \<Rightarrow> (Inl TypeError, w) | Some p \<Rightarrow> (Inr p, w))"

section \<open>Interactive menu\<close>

definition menu_lines :: "string list" where
  "menu_lines =
     [''======================================================'',
      ''        Windows optimizer - Interactive Menu'',
      ''  Made by Sambota, Cat Eating a chips (AKA MitkoBG)'',
      ''======================================================'',
      ''Choose actions to perform (comma-separated numbers):'',
      '' 1) Clean %TEMP%'',
      '' 2) Empty Recycle Bin'',
      '' 3) Optimize TCP (apply recommended netsh settings)'',
      '' 4) Restart network adapters (list will be shown)'',
      '' 5) Show saved wifi passwords on PC'',
      '' 6) Run all'',
      '' 7) Create God Mode folder on Desktop'']"

fun print_all :: "string list \<Rightarrow> unit io" where
  "print_all [] = return ()"
| "print_all (l # ls) = seq (py_print l) (print_all ls)"

definition menu_mapping :: "(string \<times> string) list" where
  "menu_mapping =
     [(''1'', ''temp''), (''2'', ''recycle''), (''3'', ''tcp''), (''4'', ''restart''),
      (''5'', ''wifi''), (''7'', ''godmode'')]"

fun menu_choices :: "string list \<Rightarrow> string list" where
  \<comment> \<open>the loop appending \<^verbatim>\<open>mapping[token]\<close>; unknown tokens are ignored\<close>
  "menu_choices [] = []"
| "menu_choices (token # tokens) =
     (case map_of menu_mapping token of
        Some act \<Rightarrow> act # menu_choices tokens
      | None \<Rightarrow> menu_choices tokens)"

definition interactive_menu :: "string list io" where
  "interactive_menu =
     bind (print_all menu_lines) (\<lambda>_.
     bind (py_input ''Selection (e.g. 1,2): '') (\<lambda>line.
       let raw = py_strip line
       in if raw = [] then return []
          else
            (let tokens = filter (\<lambda>t. t \<noteq> []) (map py_strip (split_on (CHR '','') raw))
             in if ''6'' \<in> set tokens
                then return [''temp'', ''recycle'', ''tcp'', ''restart'', ''wifi'', ''godmode'']
                else return (menu_choices tokens))))"

section \<open>Action orchestrator\<close>

definition wi_fi :: string where
  \<comment> \<open>the literal has the non-breaking hyphen U+2011, written here as its three UTF-8 bytes\<close>
  "wi_fi = ''Wi'' @ [CHR 0xE2, CHR 0x80, CHR 0x91] @ ''Fi''"

fun print_adapters :: "nat \<Rightarrow> string list \<Rightarrow> unit io" where
  \<comment> \<open>\<^verbatim>\<open>for i, a in enumerate(adapters, start=1)\<close>\<close>
  "print_adapters i [] = return ()"
| "print_adapters i (a # rest) =
     seq (py_print ('' '' @ show_nat i @ '') '' @ a)) (print_adapters (Suc i) rest)"

fun resolve_tokens :: "string list \<Rightarrow> string list \<Rightarrow> string list \<Rightarrow> string list" where
  \<comment> \<open>the \<^verbatim>\<open>for tok in sel.split(",")\<close> loop, threading \<open>targets\<close>\<close>
  "resolve_tokens adapters [] targets = targets"
| "resolve_tokens adapters (tok0 # toks) targets =
     (let tok = py_strip tok0
      in if tok = [] then resolve_tokens adapters toks targets
         else
           (case py_int tok of
              Some n \<Rightarrow>
                (let idx = n - 1
                 in if 0 \<le> idx \<and> idx < int (length adapters)
                    then resolve_tokens adapters toks (targets @ [adapters ! nat idx])
                    else resolve_tokens adapters toks targets)
            | None \<Rightarrow>
                if tok \<in> set adapters then resolve_tokens adapters toks (targets @ [tok])
                else resolve_tokens adapters toks targets))"

definition resolve_targets :: "string list \<Rightarrow> string \<Rightarrow> string list" where
  "resolve_targets adapters sel =
     (if py_lower sel = ''all'' then adapters
      else resolve_tokens adapters (split_on (CHR '','') sel) [])"

fun restart_each :: "bool \<Rightarrow> bool \<Rightarrow> string list \<Rightarrow> unit io" where
  \<comment> \<open>the \<^verbatim>\<open>for name in targets\<close> loop\<close>
  "restart_each dry_run assume_yes [] = return ()"
| "restart_each dry_run assume_yes (name # names) =
     bind (ensure_confirm (''Restart adapter '' @ [squote] @ name @ [squote]
                           @ ''? This will briefly disconnect network.'') assume_yes) (\<lambda>confirmed.
       if \<not> confirmed
       then seq (py_print (''Skipped restarting '' @ [squote] @ name @ [squote] @ ''.''))
                (restart_each dry_run assume_yes names)
       else
         bind (run_with_spinner (restart_adapter name dry_run)
                 (''Restarting '' @ [squote] @ name @ [squote] @ ''...'')) (\<lambda>r.
         bind (unpack r) (\<lambda>(ok, msg).
         seq (py_print (''Restart '' @ [squote] @ name @ [squote] @ '' -> '' @ msg))
             (restart_each dry_run assume_yes names))))"

definition step_temp :: "bool \<Rightarrow> bool \<Rightarrow> unit io" where
  "step_temp dry_run assume_yes =
     bind (ensure_confirm ''Proceed to clean %TEMP%?'' assume_yes) (\<lambda>confirmed.
       if \<not> confirmed then py_print ''Skipped %TEMP% cleanup.''
       else
         bind (run_with_spinner (clean_temp_dir dry_run) ''Cleaning %TEMP%...'') (\<lambda>r.
         bind (unpack r) (\<lambda>(ok, msg).
         py_print (''Clean %TEMP% -> '' @ msg))))"

definition step_recycle :: "bool \<Rightarrow> bool \<Rightarrow> unit io" where
  "step_recycle dry_run assume_yes =
     bind (ensure_confirm ''Proceed to empty the Recycle Bin?'' assume_yes) (\<lambda>confirmed.
       if \<not> confirmed then py_print ''Skipped Recycle Bin empty.''
       else
         bind (run_with_spinner (empty_recycle_bin dry_run) ''Emptying Recycle Bin...'') (\<lambda>r.
         bind (unpack r) (\<lambda>(ok, msg).
         py_print (''Empty Recycle Bin -> '' @ msg))))"

definition step_tcp :: "bool \<Rightarrow> bool \<Rightarrow> unit io" where
  "step_tcp dry_run assume_yes =
     bind (ensure_confirm ''Proceed to apply TCP optimizations? (may require admin)'' assume_yes)
       (\<lambda>confirmed.
       if \<not> confirmed then py_print ''Skipped TCP optimizations.''
       else
         bind (run_with_spinner (apply_tcp_optimizations dry_run) ''Applying TCP optimizations...'')
           (\<lambda>r.
         bind (unpack r) (\<lambda>(ok, msg).
         seq (py_print ''TCP optimizations ->'') (py_print msg))))"

definition step_restart :: "bool \<Rightarrow> bool \<Rightarrow> unit io" where
  "step_restart dry_run assume_yes =
     bind list_network_adapters (\<lambda>adapters.
       if adapters = [] then py_print ''No adapters found or failed to list adapters.''
       else
         seq (py_print ''Network adapters:'')
        (seq (print_adapters 1 adapters)
        (bind (py_input (''Enter adapter numbers to restart (comma-separated) or ''
                         @ [squote] @ ''all'' @ [squote] @ '': '')) (\<lambda>line.
           let sel = py_strip line
           in if sel = [] then py_print ''No adapters selected; skipping restart.''
              else restart_each dry_run assume_yes (resolve_targets adapters sel)))))"

definition step_wifi :: "bool \<Rightarrow> bool \<Rightarrow> unit io" where
  "step_wifi dry_run assume_yes =
     bind (ensure_confirm (''Proceed to list '' @ wi_fi
                           @ '' profiles and passwords? (requires appropriate privileges)'') assume_yes)
       (\<lambda>confirmed.
       if \<not> confirmed then py_print (''Skipped '' @ wi_fi @ '' password listing.'')
       else
         bind (run_with_spinner (show_wifi_passwords dry_run) (''Gathering '' @ wi_fi @ '' profiles...''))
           (\<lambda>r.
         bind (unpack r) (\<lambda>(ok, msg).
         seq (py_print (wi_fi @ '' profiles & passwords ->'')) (py_print msg))))"

definition step_godmode :: "bool \<Rightarrow> bool \<Rightarrow> unit io" where
  "step_godmode dry_run assume_yes =
     bind (ensure_confirm ''Create God Mode folder on Desktop?'' assume_yes) (\<lambda>confirmed.
       if \<not> confirmed then py_print ''Skipped God Mode creation.''
       else bind (create_god_mode dry_run) (\<lambda>(ok, msg). py_print msg))"

definition when_selected :: "bool \<Rightarrow> unit io \<Rightarrow> unit io" where
  \<comment> \<open>an \<^verbatim>\<open>if\<close> block without \<^verbatim>\<open>else\<close>\<close>
  "when_selected b m = (if b then m else return ())"

definition run_actions :: "string list \<Rightarrow> bool \<Rightarrow> bool \<Rightarrow> unit io" where
  "run_actions actions dry_run assume_yes =
     (if actions = [] then py_print ''No actions selected.''
      else
        seq (when_selected (''temp'' \<in> set actions) (step_temp dry_run assume_yes))
       (seq (when_selected (''recycle'' \<in> set actions) (step_recycle dry_run assume_yes))
       (seq (when_selected (''tcp'' \<in> set actions) (step_tcp dry_run assume_yes))
       (seq (when_selected (''restart'' \<in> set actions) (step_restart dry_run assume_yes))
       (seq (when_selected (''wifi'' \<in> set actions) (step_wifi dry_run assume_yes))
            (when_selected (''godmode'' \<in> set actions) (step_godmode dry_run assume_yes)))))))"

section \<open>Selection front-end\<close>

record cli_args =
  arg_clean_temp :: bool
  arg_empty_recycle :: bool
  arg_optimize_tcp :: bool
  arg_restart_adapters :: bool
  arg_show_wifi :: bool
  arg_all :: bool
  arg_dry_run :: bool
  arg_yes :: bool

definition cli_flags :: "cli_args \<Rightarrow> bool" where
  "cli_flags a =
     (arg_clean_temp a \<or> arg_empty_recycle a \<or> arg_optimize_tcp a \<or> arg_restart_adapters a
      \<or> arg_show_wifi a \<or> arg_all a)"

definition flag_actions :: "cli_args \<Rightarrow> string list" where
  "flag_actions a =
     (if arg_all a then [''temp'', ''recycle'', ''tcp'', ''restart'', ''wifi'', ''godmode'']
      else (if arg_clean_temp a then [''temp''] else [])
         @ (if arg_empty_recycle a then [''recycle''] else [])
         @ (if arg_optimize_tcp a then [''tcp''] else [])
         @ (if arg_restart_adapters a then [''restart''] else [])
         @ (if arg_show_wifi a then [''wifi''] else []))"

text \<open>
  The interactive loop ends only on an exit answer or a fault, so it is a partial function:
  \<open>None\<close> stands for a run that never returns.
\<close>

partial_function (option) interactive_loop :: "bool \<Rightarrow> bool \<Rightarrow> world \<Rightarrow> ((fault + int) \<times> world) option" where
  "interactive_loop dry_run assume_yes w =
     (case interactive_menu w of
        (Inl ex, w1) \<Rightarrow> Some (Inl ex, w1)
      | (Inr actions, w1) \<Rightarrow>
          if actions = [] then
            (case py_input (''No actions selected. Press Enter to exit, or type '' @ [squote] @ ''r''
                            @ [squote] @ '' to return to the menu: '') w1 of
               (Inl ex, w2) \<Rightarrow> Some (Inl ex, w2)
             | (Inr resp, w2) \<Rightarrow>
                 if py_lower (py_strip resp) = ''r'' then interactive_loop dry_run assume_yes w2
                 else Some (Inr 0, w2))
          else
            (case run_actions actions dry_run assume_yes w1 of
               (Inl ex, w2) \<Rightarrow> Some (Inl ex, w2)
             | (Inr u, w2) \<Rightarrow>
                 (case py_input (''Press Enter to return to the menu, or type '' @ [squote] @ ''exit''
                                 @ [squote] @ '' to quit: '') w2 of
                    (Inl ex, w3) \<Rightarrow> Some (Inl ex, w3)
                  | (Inr resp, w3) \<Rightarrow>
                      if py_lower (py_strip resp) = ''exit'' then Some (Inr 0, w3)
                      else interactive_loop dry_run assume_yes w3)))"

definition main :: "cli_args \<Rightarrow> world \<Rightarrow> ((fault + int) \<times> world) option" where
  \<comment> \<open>\<open>a\<close> is what \<^verbatim>\<open>parse_cli()\<close> returned\<close>
  "main a w =
     (if cli_flags a
      then (case run_actions (flag_actions a) (arg_dry_run a) (arg_yes a) w of
              (Inl ex, w1) \<Rightarrow> Some (Inl ex, w1)
            | (Inr u, w1) \<Rightarrow> Some (Inr 0, w1))
      else interactive_loop (arg_dry_run a) (arg_yes a) (w\<lparr>launched_interactive := True\<rparr>))"

section \<open>Notions of the specification and concrete worlds\<close>

text \<open>
  The specification's reading of an affirmative answer: the line, with the white space around
  it removed and compared without regard to case, is "y" or "yes".
\<close>

definition says_yes :: "string \<Rightarrow> bool" where
  "says_yes l =
     (\<exists>pre core post. l = pre @ core @ post
        \<and> (\<forall>c\<in>set pre. is_space c) \<and> (\<forall>c\<in>set post. is_space c)
        \<and> core \<in> {''y'', ''Y'', ''yes'', ''yeS'', ''yEs'', ''yES'', ''Yes'', ''YeS'', ''YEs'', ''YES''})"

text \<open>
  A system on which nothing exists and every command completes with empty output, and a
  world over a given system with given pending input lines.
\<close>

definition quiet_os :: os_model where
  "quiet_os =
     \<lparr>environ = (\<lambda>_. None), gettempdir = ''T'', abspath = (\<lambda>p. p), home_dir = ''H'',
      path_exists = (\<lambda>_ _. False), walk_bottom_up = (\<lambda>_ _. []),
      remove_ok = (\<lambda>_ _. True), rmdir_ok = (\<lambda>_ _. True), mkdir_result = (\<lambda>_ _. None),
      sh_empty_recycle_bin = (\<lambda>_. Inr 0), subprocess_run = (\<lambda>_ _. Completed []),
      spinner_ticks = (\<lambda>_. [])\<rparr>"

definition world_with :: "os_model \<Rightarrow> string list \<Rightarrow> world" where
  "world_with sys inp = \<lparr>os = sys, stdin = inp, trace = [], launched_interactive = False\<rparr>"

text \<open>
  The line \<open>apply_tcp_optimizations\<close> reports for one command, given what running it
  gave, and the results the commands get when they run one after the other from a world.
\<close>

definition report_line :: "string list \<Rightarrow> proc_result \<Rightarrow> string" where
  "report_line cmd r =
     (case r of
        Completed out \<Rightarrow> ''OK: '' @ join '' '' cmd
      | CalledProcessError err text \<Rightarrow>
          ''FAILED: '' @ join '' '' cmd @ '' -> '' @ (if err \<noteq> [] then err else text)
      | Raised ex \<Rightarrow> [])"

fun tcp_results :: "string list list \<Rightarrow> world \<Rightarrow> proc_result list" where
  "tcp_results [] w = []"
| "tcp_results (cmd # cmds) w = fst (subprocess cmd w) # tcp_results cmds (snd (subprocess cmd w))"

text \<open>A system on which every command fails with an empty standard error.\<close>

definition failing_os :: os_model where
  "failing_os = quiet_os\<lparr>subprocess_run := (\<lambda>_ _. CalledProcessError [] ''boom'')\<rparr>"

text \<open>
  The number of files and directories a walk lists, the report of \<open>clean_temp_dir\<close>,
  the events that change nothing on the system, and a system whose temp directory holds
  two files and a directory; with \<open>locked\<close> the file \<open>b\<close> cannot be removed.
\<close>

definition walk_entries :: "(string \<times> string list \<times> string list) list \<Rightarrow> nat" where
  "walk_entries tree = sum_list (map (\<lambda>(root, dirs, files). length files + length dirs) tree)"

definition planned_message :: "nat \<Rightarrow> nat \<Rightarrow> string" where
  "planned_message deleted failed =
     ''Planned deletions: '' @ show_nat deleted @ ''. Failed deletions: '' @ show_nat failed @ ''.''"

definition no_mutation :: "event list \<Rightarrow> bool" where
  "no_mutation es = list_all (\<lambda>e. case e of Call c \<Rightarrow> \<not> mutating c | _ \<Rightarrow> True) es"

definition temp_os :: "bool \<Rightarrow> os_model" where
  "temp_os locked =
     quiet_os\<lparr>path_exists := (\<lambda>_ _. True),
              walk_bottom_up := (\<lambda>_ _. [(''T'', [''d''], [''a'', ''b''])]),
              remove_ok := (\<lambda>_ p. \<not> locked \<or> p \<noteq> ''T'' @ [backslash] @ ''b'')\<rparr>"

text \<open>What the indicator writes last: the line is overwritten with eighty blanks.\<close>

definition clear_line :: string where
  "clear_line = [carriage_return] @ replicate 80 (CHR '' '') @ [carriage_return]"

text \<open>
  The lines a trace printed, the full selection, and a system on which every action fails:
  no temp directory, no desktop, a recycle-bin call that raises, commands that all fail.
\<close>

fun printed :: "event list \<Rightarrow> string list" where
  "printed [] = []"
| "printed (Print s # es) = s # printed es"
| "printed (e # es) = printed es"

definition broken_os :: os_model where
  "broken_os = failing_os\<lparr>sh_empty_recycle_bin := (\<lambda>_. Inl ''denied'')\<rparr>"

definition all_actions :: "string list" where
  "all_actions = [''temp'', ''recycle'', ''tcp'', ''restart'', ''wifi'', ''godmode'']"

text \<open>
  What a real run of \<open>clean_temp_dir\<close> attempts on a listed tree, in order: under each
  root every file is removed, then every directory. \<open>outcomes\<close> gives what the system
  answers to each attempt when they are made one after the other from a trace; an attempt
  succeeded when the answer is true, and a removal failed when a \<open>Remove\<close> was answered
  false. A directory that cannot be removed is neither.
\<close>

fun attempts :: "(string \<times> string list \<times> string list) list \<Rightarrow> syscall list" where
  "attempts [] = []"
| "attempts ((root, dirs, files) # rest) =
     map (\<lambda>name. Remove (path_join root name)) files
     @ map (\<lambda>d. Rmdir (path_join root d)) dirs
     @ attempts rest"

fun outcomes :: "os_model \<Rightarrow> event list \<Rightarrow> syscall list \<Rightarrow> bool list" where
  "outcomes sys tr [] = []"
| "outcomes sys tr (c # cs) =
     (case c of Remove p \<Rightarrow> remove_ok sys tr p | Rmdir p \<Rightarrow> rmdir_ok sys tr p | _ \<Rightarrow> False)
     # outcomes sys (tr @ [Call c]) cs"

fun is_Remove :: "syscall \<Rightarrow> bool" where
  "is_Remove (Remove p) = True"
| "is_Remove _ = False"

definition succeeded :: "syscall list \<Rightarrow> bool list \<Rightarrow> nat" where
  "succeeded cs rs = length (filter (\<lambda>(c, r). r) (zip cs rs))"

definition failed_removals :: "syscall list \<Rightarrow> bool list \<Rightarrow> nat" where
  "failed_removals cs rs = length (filter (\<lambda>(c, r). is_Remove c \<and> \<not> r) (zip cs rs))"

text \<open>
  The faults a system raises from its process calls all satisfy \<open>P\<close>. Two cases are used:
  the calls raise instances of \<^verbatim>\<open>Exception\<close> only (as \<^verbatim>\<open>subprocess.run\<close> does:
  \<^verbatim>\<open>FileNotFoundError\<close>, \<^verbatim>\<open>PermissionError\<close>, ...), and the calls never raise, so that
  every failure is a reported one.
\<close>

definition raises_only :: "(fault \<Rightarrow> bool) \<Rightarrow> os_model \<Rightarrow> bool" where
  "raises_only P sys = (\<forall>tr cmd ex. subprocess_run sys tr cmd = Raised ex \<longrightarrow> P ex)"

definition raises_exceptions_only :: "os_model \<Rightarrow> bool" where
  "raises_exceptions_only sys = raises_only is_Exception sys"

definition never_raises :: "os_model \<Rightarrow> bool" where
  "never_raises sys = raises_only (\<lambda>ex. False) sys"

text \<open>
  The runner passes on what the wrapped function did: its value, or else its fault, in both
  cases after the indicator has cleared its line.
\<close>

definition passes_on :: "'a io \<Rightarrow> string \<Rightarrow> world \<Rightarrow> bool" where
  "passes_on func pfx w =
     (run_with_spinner func pfx w =
        (case func w of
           (Inr v, w1) \<Rightarrow> (Inr (Some v), spinner_worker pfx w1)
         | (Inl ex, w1) \<Rightarrow> (Inl ex, spinner_worker pfx w1)))"

text \<open>A system without \<^verbatim>\<open>netsh\<close>: every process call raises an \<open>OSError\<close>.\<close>

definition raising_os :: os_model where
  "raising_os = quiet_os\<lparr>subprocess_run := (\<lambda>_ _. Raised (OSError ''netsh not found''))\<rparr>"

text \<open>
  Two invariants of a step on a system that never raises: it returns normally on the same
  system; or it does so unless the input ran out, in which case it raises \<open>EOFError\<close>.
\<close>

definition carries_on :: "unit io \<Rightarrow> bool" where
  "carries_on m = (\<forall>w. never_raises (os w) \<longrightarrow> (\<exists>w1. m w = (Inr (), w1) \<and> os w1 = os w))"

definition halts_on_input_only :: "unit io \<Rightarrow> bool" where
  "halts_on_input_only m =
     (\<forall>w. never_raises (os w) \<longrightarrow>
        (\<exists>w1. (m w = (Inr (), w1) \<and> os w1 = os w) \<or> (m w = (Inl EOFError, w1) \<and> stdin w1 = [])))"

text \<open>
  A system with one network adapter, on which the listing completes and every other
  command fails, so that restarting the adapter fails.
\<close>

definition adapter_table :: string where
  "adapter_table =
     ''Admin State  State  Type  Interface Name'' @ [newline]
     @ ''----------------'' @ [newline]
     @ ''Enabled  Connected  Dedicated  Ethernet'' @ [newline]"

definition adapter_os :: os_model where
  "adapter_os =
     quiet_os\<lparr>subprocess_run :=
       (\<lambda>_ cmd. if cmd = [''netsh'', ''interface'', ''show'', ''interface'']
                 then Completed adapter_table
                 else CalledProcessError [] ''boom'')\<rparr>"

text \<open>
  The specification's reading of the orchestrator: the canonical order of the six actions,
  what performing one action is, performing a list of actions one after the other, and the
  schedule of a selection, which is the canonical order restricted to the selected actions.
\<close>

definition canonical_order :: "string list" where
  "canonical_order = [''temp'', ''recycle'', ''tcp'', ''restart'', ''wifi'', ''godmode'']"

definition perform :: "string \<Rightarrow> bool \<Rightarrow> bool \<Rightarrow> unit io" where
  "perform a dry_run assume_yes =
     (if a = ''temp'' then step_temp dry_run assume_yes
      else if a = ''recycle'' then step_recycle dry_run assume_yes
      else if a = ''tcp'' then step_tcp dry_run assume_yes
      else if a = ''restart'' then step_restart dry_run assume_yes
      else if a = ''wifi'' then step_wifi dry_run assume_yes
      else if a = ''godmode'' then step_godmode dry_run assume_yes
      else return ())"

fun run_in_order :: "string list \<Rightarrow> bool \<Rightarrow> bool \<Rightarrow> unit io" where
  "run_in_order [] dry_run assume_yes = return ()"
| "run_in_order (a # rest) dry_run assume_yes =
     seq (perform a dry_run assume_yes) (run_in_order rest dry_run assume_yes)"

definition schedule :: "string list \<Rightarrow> string list" where
  "schedule actions = filter (\<lambda>a. a \<in> set actions) canonical_order"

text \<open>
  A command line without any flag, and the end of the program once a pass is over: a fault
  goes on to the caller, a pass that returned gives the exit code.
\<close>

definition no_flags :: cli_args where
  "no_flags =
     \<lparr>arg_clean_temp = False, arg_empty_recycle = False, arg_optimize_tcp = False,
      arg_restart_adapters = False, arg_show_wifi = False, arg_all = False,
      arg_dry_run = False, arg_yes = False\<rparr>"

definition exit_with :: "int \<Rightarrow> (fault + unit) \<times> world \<Rightarrow> ((fault + int) \<times> world) option" where
  "exit_with code r = (case r of (Inl ex, w1) \<Rightarrow> Some (Inl ex, w1) | (Inr u, w1) \<Rightarrow> Some (Inr code, w1))"

section \<open>Auxiliary facts\<close>

lemmas text_defs = py_lower_def py_strip_def is_space_def lower_char_def is_upper_def

lemma lower_char_y: "lower_char c = CHR ''y'' \<Longrightarrow> c = CHR ''y'' \<or> c = CHR ''Y''"
  by (cases c) (auto simp: lower_char_def is_upper_def Let_def split: if_splits)

lemma lower_char_e: "lower_char c = CHR ''e'' \<Longrightarrow> c = CHR ''e'' \<or> c = CHR ''E''"
  by (cases c) (auto simp: lower_char_def is_upper_def Let_def split: if_splits)

lemma lower_char_s: "lower_char c = CHR ''s'' \<Longrightarrow> c = CHR ''s'' \<or> c = CHR ''S''"
  by (cases c) (auto simp: lower_char_def is_upper_def Let_def split: if_splits)

lemma py_lower_y: "py_lower s = ''y'' \<Longrightarrow> s \<in> {''y'', ''Y''}"
  by (auto simp: py_lower_def dest: lower_char_y)

lemma py_lower_yes:
  "py_lower s = ''yes'' \<Longrightarrow> s \<in> {''yes'', ''yeS'', ''yEs'', ''yES'', ''Yes'', ''YeS'', ''YEs'', ''YES''}"
  by (auto simp: py_lower_def dest!: lower_char_y lower_char_e lower_char_s)

lemma strip_decompose:
  "l = takeWhile is_space l @ py_strip l @ rev (takeWhile is_space (rev (dropWhile is_space l)))"
proof -
  let ?r = "dropWhile is_space l"
  have "rev (takeWhile is_space (rev ?r) @ dropWhile is_space (rev ?r)) = rev (rev ?r)"
    by (simp only: takeWhile_dropWhile_id)
  then have "?r = py_strip l @ rev (takeWhile is_space (rev ?r))"
    by (simp only: rev_append rev_rev_ident py_strip_def)
  moreover have "l = takeWhile is_space l @ ?r" by simp
  ultimately show ?thesis by metis
qed

lemma dropWhile_all: "\<forall>c\<in>set xs. P c \<Longrightarrow> dropWhile P (xs @ ys) = dropWhile P ys"
  by (induction xs) auto

lemma strip_core:
  assumes "\<forall>c\<in>set pre. is_space c" "\<forall>c\<in>set post. is_space c"
    and "core \<noteq> []" "\<not> is_space (hd core)" "\<not> is_space (last core)"
  shows "py_strip (pre @ core @ post) = core"
proof -
  have a: "dropWhile is_space (pre @ core @ post) = core @ post"
    using assms(1,3,4) by (cases core) (simp_all add: dropWhile_all)
  have "rev (core @ post) = rev post @ rev core" by simp
  moreover have "dropWhile is_space (rev post @ rev core) = rev core"
    using assms(2,3,5) by (cases core rule: rev_cases) (simp_all add: dropWhile_all)
  ultimately show ?thesis by (simp add: py_strip_def a)
qed

lemma says_yes_iff: "says_yes l \<longleftrightarrow> py_lower (py_strip l) \<in> set [''y'', ''yes'']"
proof
  assume "says_yes l"
  then obtain pre core post where l: "l = pre @ core @ post"
    and sp: "\<forall>c\<in>set pre. is_space c" "\<forall>c\<in>set post. is_space c"
    and core: "core \<in> {''y'', ''Y'', ''yes'', ''yeS'', ''yEs'', ''yES'', ''Yes'', ''YeS'', ''YEs'', ''YES''}"
    unfolding says_yes_def by blast
  from core have c2: "core \<noteq> [] \<and> \<not> is_space (hd core) \<and> \<not> is_space (last core)
      \<and> py_lower core \<in> set [''y'', ''yes'']"
    by (auto simp: is_space_def py_lower_def lower_char_def is_upper_def)
  with sp have "py_strip l = core" unfolding l by (intro strip_core) auto
  with c2 show "py_lower (py_strip l) \<in> set [''y'', ''yes'']" by simp
next
  assume a: "py_lower (py_strip l) \<in> set [''y'', ''yes'']"
  then have "py_strip l \<in> {''y'', ''Y'', ''yes'', ''yeS'', ''yEs'', ''yES'', ''Yes'', ''YeS'', ''YEs'', ''YES''}"
    using py_lower_y [of "py_strip l"] py_lower_yes [of "py_strip l"] by auto
  moreover have "\<forall>c\<in>set (takeWhile is_space l). is_space c" by (auto dest: set_takeWhileD)
  moreover have "\<forall>c\<in>set (rev (takeWhile is_space (rev (dropWhile is_space l)))). is_space c"
    by (auto dest: set_takeWhileD)
  ultimately show "says_yes l"
    unfolding says_yes_def using strip_decompose [of l] by blast
qed

lemma tcp_loop_lines:
  "tcp_loop cmds acc w = (Inr lines, w') \<Longrightarrow>
     lines = acc @ map (\<lambda>(c, r). report_line c r) (zip cmds (tcp_results cmds w))"
proof (induction cmds arbitrary: acc w)
  case Nil
  then show ?case by simp
next
  case (Cons cmd cmds)
  obtain r w1 where s: "subprocess cmd w = (r, w1)" by (cases "subprocess cmd w")
  show ?case
  proof (cases r)
    case (Completed out)
    with Cons.prems s have "tcp_loop cmds (acc @ [''OK: '' @ join '' '' cmd]) w1 = (Inr lines, w')" by simp
    from Cons.IH [OF this] show ?thesis using s Completed by (simp add: report_line_def)
  next
    case (CalledProcessError err detail)
    with Cons.prems s have "tcp_loop cmds
        (acc @ [''FAILED: '' @ join '' '' cmd @ '' -> '' @ (if err \<noteq> [] then err else detail)]) w1 = (Inr lines, w')"
      by simp
    from Cons.IH [OF this] show ?thesis using s CalledProcessError by (simp add: report_line_def)
  next
    case (Raised ex)
    with Cons.prems s show ?thesis by simp
  qed
qed

lemma failing_run:
  "apply_tcp_optimizations False (world_with failing_os [])
     = (Inr (True, join [newline] (map (\<lambda>c. ''FAILED: '' @ join '' '' c @ '' -> boom'') tcp_commands)),
        (world_with failing_os [])\<lparr>trace := map (\<lambda>c. Call (SubprocessRun c)) tcp_commands\<rparr>)"
  by (simp add: apply_tcp_optimizations_def tcp_commands_def subprocess_def log_def world_with_def
      failing_os_def quiet_os_def)

lemma clean_files_dry: "clean_files True root names (d, f) w = ((d + length names, f), w)"
  by (induction names arbitrary: d) simp_all

lemma clean_dirs_dry: "clean_dirs True root ds (d, f) w = ((d + length ds, f), w)"
  by (induction ds arbitrary: d) simp_all

lemma clean_walk_dry: "clean_walk True tree (d, f) w = ((d + walk_entries tree, f), w)"
  by (induction tree arbitrary: d) (auto simp: walk_entries_def clean_files_dry clean_dirs_dry)

lemma clean_temp_dir_dry:
  "clean_temp_dir True w =
     (let t = get_temp_dir (os w)
      in if path_exists (os w) (trace w) t
         then (Inr (True, planned_message (walk_entries (walk_bottom_up (os w) (trace w @ [Call (PathExists t)]) t)) 0),
               w\<lparr>trace := trace w @ [Call (PathExists t), Call (Walk t)]\<rparr>)
         else (Inr (False, ''Temp directory '' @ [squote] @ t @ [squote] @ '' does not exist.''),
               w\<lparr>trace := trace w @ [Call (PathExists t)]\<rparr>))"
  by (simp add: clean_temp_dir_def Let_def clean_walk_dry planned_message_def log_def)

lemma split_on_no_sep: "sep \<notin> set s \<Longrightarrow> split_on sep s = [s]"
  by (induction s) auto

lemma py_int_empty: "py_int [] = None"
  by (simp add: py_int_def py_strip_def)

lemma resolve_tokens_out_of_range:
  assumes "py_int (py_strip tok) = Some n" and "n < 1 \<or> int (length adapters) < n"
  shows "resolve_tokens adapters (tok # toks) targets = resolve_tokens adapters toks targets"
proof -
  have "py_strip tok \<noteq> []"
    using assms(1) py_int_empty by (cases "py_strip tok = []") simp_all
  then show ?thesis using assms by (auto simp: Let_def)
qed

lemma py_int_9: "py_int (py_strip ''9'') = Some 9"
  by (simp add: text_defs py_int_def is_digit_def Let_def)

lemmas io_defs = bind_def seq_def return_def py_print_def py_input_def log_def unpack_def
  when_selected_def subprocess_def

lemma seq_continues: "m w = (Inr (), w') \<Longrightarrow> seq m k w = k w'"
  by (simp add: seq_def bind_def)

lemma ensure_confirm_yes: "ensure_confirm p True w = (Inr True, w)"
  by (simp add: ensure_confirm_def)

lemmas world_defs = world_with_def quiet_os_def failing_os_def broken_os_def

lemma spinner_quiet:
  "spinner_ticks (os w) (trace w) = [] \<Longrightarrow> spinner_worker p w = w\<lparr>trace := trace w @ [Write clear_line]\<rparr>"
  by (simp add: spinner_worker_def clear_line_def)

lemma spinner_broken:
  "os w = broken_os \<Longrightarrow> spinner_worker p w = w\<lparr>trace := trace w @ [Write clear_line]\<rparr>"
  by (simp add: spinner_quiet quiet_os_def failing_os_def broken_os_def)

lemma broken_temp:
  "os w = broken_os \<Longrightarrow> step_temp False True w
     = (Inr (), w\<lparr>trace := trace w @ [Call (PathExists ''T''), Write clear_line,
          Print (''Clean %TEMP% -> Temp directory '' @ [squote] @ ''T'' @ [squote] @ '' does not exist.'')]\<rparr>)"
  by (simp add: step_temp_def ensure_confirm_def run_with_spinner_def spinner_quiet io_defs
      clean_temp_dir_def get_temp_dir_def Let_def quiet_os_def failing_os_def broken_os_def)

lemma broken_recycle_step:
  "os w = broken_os \<Longrightarrow> step_recycle False True w
     = (Inr (), w\<lparr>trace := trace w @ [Call (SHEmptyRecycleBinW 7), Write clear_line,
          Print ''Empty Recycle Bin -> Exception calling SHEmptyRecycleBinW: denied'']\<rparr>)"
  by (simp add: step_recycle_def ensure_confirm_def run_with_spinner_def spinner_quiet io_defs
      empty_recycle_bin_def Let_def SHERB_NOCONFIRMATION_def SHERB_NOPROGRESSUI_def SHERB_NOSOUND_def
      quiet_os_def failing_os_def broken_os_def)


lemma tcp_loop_broken:
  "os w = broken_os \<Longrightarrow> tcp_loop cmds acc w
     = (Inr (acc @ map (\<lambda>c. ''FAILED: '' @ join '' '' c @ '' -> boom'') cmds),
        w\<lparr>trace := trace w @ map (\<lambda>c. Call (SubprocessRun c)) cmds\<rparr>)"
proof (induction cmds arbitrary: acc w)
  case Nil
  then show ?case by simp
next
  case (Cons c cmds)
  have "os (log (Call (SubprocessRun c)) w) = broken_os"
    using Cons.prems by (simp add: log_def)
  from Cons.IH [OF this] Cons.prems show ?case
    by (simp add: subprocess_def log_def quiet_os_def failing_os_def broken_os_def)
qed

lemma broken_tcp:
  "os w = broken_os \<Longrightarrow> step_tcp False True w
     = (Inr (), w\<lparr>trace := trace w @ map (\<lambda>c. Call (SubprocessRun c)) tcp_commands
          @ [Write clear_line, Print ''TCP optimizations ->'',
             Print (join [newline] (map (\<lambda>c. ''FAILED: '' @ join '' '' c @ '' -> boom'') tcp_commands))]\<rparr>)"
  by (simp add: step_tcp_def ensure_confirm_def run_with_spinner_def spinner_broken io_defs
      apply_tcp_optimizations_def tcp_loop_broken)

lemma broken_restart:
  "os w = broken_os \<Longrightarrow> step_restart False True w
     = (Inr (), w\<lparr>trace := trace w @ [Call (SubprocessRun [''netsh'', ''interface'', ''show'', ''interface'']),
          Print ''No adapters found or failed to list adapters.'']\<rparr>)"
  by (simp add: step_restart_def list_network_adapters_def io_defs
      quiet_os_def failing_os_def broken_os_def)

lemma broken_wifi:
  "os w = broken_os \<Longrightarrow> step_wifi False True w
     = (Inr (), w\<lparr>trace := trace w @ [Call (SubprocessRun [''netsh'', ''wlan'', ''show'', ''profiles'']),
          Write clear_line, Print (wi_fi @ '' profiles & passwords ->''),
          Print ''No Wi-Fi profiles found or failed to query profiles.'']\<rparr>)"
  by (simp add: step_wifi_def ensure_confirm_def run_with_spinner_def spinner_quiet io_defs
      show_wifi_passwords_def list_wifi_profiles_def quiet_os_def failing_os_def broken_os_def)

lemma broken_godmode:
  "os w = broken_os \<Longrightarrow> step_godmode False True w
     = (Inr (), w\<lparr>trace := trace w @ [Call (PathExists (''H'' @ [backslash] @ ''Desktop'')),
          Print (''Desktop path not found: H'' @ [backslash] @ ''Desktop'')]\<rparr>)"
  by (simp add: step_godmode_def ensure_confirm_def io_defs create_god_mode_def path_join_def Let_def
      quiet_os_def failing_os_def broken_os_def)

lemma printed_append: "printed (xs @ ys) = printed xs @ printed ys"
  by (induction xs rule: printed.induct) simp_all

lemma printed_calls: "printed (map (\<lambda>c. Call (f c)) cs) = []"
  by (induction cs) simp_all

lemma broken_pass:
  "run_actions all_actions False True (world_with broken_os [])
     = (Inr (), (world_with broken_os [])\<lparr>trace :=
          [Call (PathExists ''T''), Write clear_line,
           Print (''Clean %TEMP% -> Temp directory '' @ [squote] @ ''T'' @ [squote] @ '' does not exist.''),
           Call (SHEmptyRecycleBinW 7), Write clear_line,
           Print ''Empty Recycle Bin -> Exception calling SHEmptyRecycleBinW: denied'']
          @ map (\<lambda>c. Call (SubprocessRun c)) tcp_commands
          @ [Write clear_line, Print ''TCP optimizations ->'',
             Print (join [newline] (map (\<lambda>c. ''FAILED: '' @ join '' '' c @ '' -> boom'') tcp_commands)),
             Call (SubprocessRun [''netsh'', ''interface'', ''show'', ''interface'']),
             Print ''No adapters found or failed to list adapters.'',
             Call (SubprocessRun [''netsh'', ''wlan'', ''show'', ''profiles'']),
             Write clear_line, Print (wi_fi @ '' profiles & passwords ->''),
             Print ''No Wi-Fi profiles found or failed to query profiles.'',
             Call (PathExists (''H'' @ [backslash] @ ''Desktop'')),
             Print (''Desktop path not found: H'' @ [backslash] @ ''Desktop'')]\<rparr>)"
  by (simp add: run_actions_def all_actions_def when_selected_def seq_def bind_def
      broken_temp broken_recycle_step broken_tcp broken_restart broken_wifi broken_godmode
      world_with_def)


lemma broken_recycle:
  "empty_recycle_bin False (world_with broken_os [])
     = (Inr (False, ''Exception calling SHEmptyRecycleBinW: denied''),
        log (Call (SHEmptyRecycleBinW 7)) (world_with broken_os []))"
  by (simp add: empty_recycle_bin_def Let_def SHERB_NOCONFIRMATION_def SHERB_NOPROGRESSUI_def
      SHERB_NOSOUND_def world_with_def quiet_os_def failing_os_def broken_os_def)

lemma broken_pass_printed:
  "printed (trace (snd (run_actions all_actions False True (world_with broken_os [])))) =
     [''Clean %TEMP% -> Temp directory '' @ [squote] @ ''T'' @ [squote] @ '' does not exist.'',
      ''Empty Recycle Bin -> Exception calling SHEmptyRecycleBinW: denied'',
      ''TCP optimizations ->'',
      join [newline] (map (\<lambda>c. ''FAILED: '' @ join '' '' c @ '' -> boom'') tcp_commands),
      ''No adapters found or failed to list adapters.'',
      wi_fi @ '' profiles & passwords ->'',
      ''No Wi-Fi profiles found or failed to query profiles.'',
      ''Desktop path not found: H'' @ [backslash] @ ''Desktop'']"
  by (simp add: broken_pass printed_append printed_calls)

subsection \<open>What a real cleaning run does\<close>

lemma outcomes_append:
  "outcomes sys tr (cs @ ds) = outcomes sys tr cs @ outcomes sys (tr @ map Call cs) ds"
  by (induction cs arbitrary: tr) simp_all

lemma length_outcomes: "length (outcomes sys tr cs) = length cs"
  by (induction cs arbitrary: tr) simp_all

lemma succeeded_append:
  "length rs = length cs \<Longrightarrow> succeeded (cs @ ds) (rs @ qs) = succeeded cs rs + succeeded ds qs"
  by (simp add: succeeded_def)

lemma failed_removals_append:
  "length rs = length cs \<Longrightarrow>
     failed_removals (cs @ ds) (rs @ qs) = failed_removals cs rs + failed_removals ds qs"
  by (simp add: failed_removals_def)

lemma clean_files_real:
  "clean_files False root names (d, f) w =
     (let cs = map (\<lambda>name. Remove (path_join root name)) names;
          rs = outcomes (os w) (trace w) cs
      in ((d + succeeded cs rs, f + failed_removals cs rs), w\<lparr>trace := trace w @ map Call cs\<rparr>))"
proof (induction names arbitrary: d f w)
  case Nil
  then show ?case by (simp add: succeeded_def failed_removals_def)
next
  case (Cons n names)
  show ?case
    by (simp add: Cons.IH Let_def log_def succeeded_def failed_removals_def)
qed

lemma clean_dirs_real:
  "clean_dirs False root ds (d, f) w =
     (let cs = map (\<lambda>x. Rmdir (path_join root x)) ds;
          rs = outcomes (os w) (trace w) cs
      in ((d + succeeded cs rs, f + failed_removals cs rs), w\<lparr>trace := trace w @ map Call cs\<rparr>))"
proof (induction ds arbitrary: d f w)
  case Nil
  then show ?case by (simp add: succeeded_def failed_removals_def)
next
  case (Cons n names)
  show ?case
    by (simp add: Cons.IH Let_def log_def succeeded_def failed_removals_def)
qed

lemma clean_walk_real:
  "clean_walk False tree (d, f) w =
     (let cs = attempts tree;
          rs = outcomes (os w) (trace w) cs
      in ((d + succeeded cs rs, f + failed_removals cs rs), w\<lparr>trace := trace w @ map Call cs\<rparr>))"
proof (induction tree arbitrary: d f w)
  case Nil
  then show ?case by (simp add: succeeded_def failed_removals_def)
next
  case (Cons e tree)
  obtain root dirs files where e: "e = (root, dirs, files)" by (cases e) auto
  show ?case
    by (simp add: e Cons.IH clean_files_real clean_dirs_real Let_def outcomes_append
        succeeded_append failed_removals_append length_outcomes)
qed

lemma attempts_length: "length (attempts tree) = walk_entries tree"
  by (induction tree) (auto simp: walk_entries_def)

subsection \<open>Where faults come from\<close>

lemma subprocess_os: "subprocess cmd w = (r, w1) \<Longrightarrow> os w1 = os w"
  by (auto simp: subprocess_def log_def)

lemma subprocess_raised:
  "raises_only P (os w) \<Longrightarrow> subprocess cmd w = (Raised ex, w1) \<Longrightarrow> P ex"
  by (auto simp: subprocess_def raises_only_def)

lemma tcp_loop_os: "tcp_loop cmds acc w = (r, w1) \<Longrightarrow> os w1 = os w"
proof (induction cmds arbitrary: acc w)
  case Nil
  then show ?case by simp
next
  case (Cons c cmds)
  obtain r0 w2 where s: "subprocess c w = (r0, w2)" by (cases "subprocess c w")
  from Cons.prems s subprocess_os [OF s] Cons.IH [of _ w2] show ?case
    by (cases r0) auto
qed

lemma tcp_loop_fault:
  "raises_only P (os w) \<Longrightarrow> tcp_loop cmds acc w = (Inl ex, w1) \<Longrightarrow> P ex"
proof (induction cmds arbitrary: acc w)
  case Nil
  then show ?case by simp
next
  case (Cons c cmds)
  obtain r w2 where s: "subprocess c w = (r, w2)" by (cases "subprocess c w")
  have o: "os w2 = os w" using subprocess_os [OF s] .
  show ?case
  proof (cases r)
    case (Completed out)
    with Cons.prems s o Cons.IH [of w2] show ?thesis by simp
  next
    case (CalledProcessError err detail)
    with Cons.prems s o Cons.IH [of w2] show ?thesis by simp
  next
    case (Raised e)
    with Cons.prems s subprocess_raised [of P w c e w2] show ?thesis by simp
  qed
qed

lemma get_wifi_password_fault:
  "raises_only P (os w) \<Longrightarrow> get_wifi_password p w = (Inl ex, w1) \<Longrightarrow> P ex"
  by (auto simp: get_wifi_password_def split: prod.splits proc_result.splits option.splits
      dest: subprocess_raised)

lemma get_wifi_password_os: "get_wifi_password p w = (r, w1) \<Longrightarrow> os w1 = os w"
  by (auto simp: get_wifi_password_def split: prod.splits proc_result.splits option.splits
      dest: subprocess_os)

lemma wifi_loop_os: "wifi_loop ps acc w = (r, w1) \<Longrightarrow> os w1 = os w"
proof (induction ps arbitrary: acc w)
  case Nil
  then show ?case by simp
next
  case (Cons p ps)
  obtain r0 w2 where s: "get_wifi_password p w = (r0, w2)" by (cases "get_wifi_password p w")
  from Cons.prems s get_wifi_password_os [OF s] Cons.IH [of _ w2] show ?case
    by (cases r0) (auto split: prod.splits)
qed

lemma wifi_loop_fault:
  "raises_only P (os w) \<Longrightarrow> wifi_loop ps acc w = (Inl ex, w1) \<Longrightarrow> P ex"
proof (induction ps arbitrary: acc w)
  case Nil
  then show ?case by simp
next
  case (Cons p ps)
  obtain r w2 where s: "get_wifi_password p w = (r, w2)" by (cases "get_wifi_password p w")
  have o: "os w2 = os w" using get_wifi_password_os [OF s] .
  show ?case
  proof (cases r)
    case (Inl e)
    with Cons.prems s get_wifi_password_fault [of P w p e w2] show ?thesis by simp
  next
    case (Inr v)
    with Cons.prems s o Cons.IH [of w2] show ?thesis by (auto split: prod.splits)
  qed
qed

lemma list_wifi_profiles_fault:
  "raises_only P (os w) \<Longrightarrow> list_wifi_profiles w = (Inl ex, w1) \<Longrightarrow> P ex"
  by (auto simp: list_wifi_profiles_def split: prod.splits proc_result.splits dest: subprocess_raised)

lemma list_wifi_profiles_os: "list_wifi_profiles w = (r, w1) \<Longrightarrow> os w1 = os w"
  by (auto simp: list_wifi_profiles_def split: prod.splits proc_result.splits dest: subprocess_os)

lemma list_network_adapters_fault:
  "raises_only P (os w) \<Longrightarrow> list_network_adapters w = (Inl ex, w1) \<Longrightarrow> P ex"
  by (auto simp: list_network_adapters_def split: prod.splits proc_result.splits dest: subprocess_raised)

lemma list_network_adapters_os: "list_network_adapters w = (r, w1) \<Longrightarrow> os w1 = os w \<and> stdin w1 = stdin w"
  by (auto simp: list_network_adapters_def subprocess_def log_def split: prod.splits proc_result.splits)

lemma clean_temp_dir_returns:
  "\<exists>v w1. clean_temp_dir dry_run w = (Inr v, w1) \<and> os w1 = os w"
  by (cases dry_run)
     (auto simp: clean_temp_dir_def Let_def clean_walk_dry clean_walk_real log_def)

lemma empty_recycle_bin_returns:
  "\<exists>v w1. empty_recycle_bin dry_run w = (Inr v, w1) \<and> os w1 = os w"
  by (auto simp: empty_recycle_bin_def Let_def log_def split: sum.splits)

lemma create_god_mode_returns:
  "\<exists>v w1. create_god_mode dry_run w = (Inr v, w1) \<and> os w1 = os w"
  by (auto simp: create_god_mode_def Let_def log_def split: option.splits)

lemma apply_tcp_optimizations_fault:
  "raises_only P (os w) \<Longrightarrow> apply_tcp_optimizations dry_run w = (Inl ex, w1) \<Longrightarrow> P ex"
  by (auto simp: apply_tcp_optimizations_def split: if_splits prod.splits sum.splits dest: tcp_loop_fault)

lemma apply_tcp_optimizations_os: "apply_tcp_optimizations dry_run w = (r, w1) \<Longrightarrow> os w1 = os w"
  by (auto simp: apply_tcp_optimizations_def split: if_splits prod.splits sum.splits dest: tcp_loop_os)

lemma restart_adapter_os: "restart_adapter name dry_run w = (r, w1) \<Longrightarrow> os w1 = os w"
  by (auto simp: restart_adapter_def subprocess_def log_def split: if_splits proc_result.splits)

lemma restart_adapter_fault:
  "raises_only P (os w) \<Longrightarrow> restart_adapter name dry_run w = (Inl ex, w1) \<Longrightarrow> P ex"
proof -
  assume a: "raises_only P (os w)" and b: "restart_adapter name dry_run w = (Inl ex, w1)"
  let ?c1 = "[''netsh'', ''interface'', ''set'', ''interface'', name, ''admin=DISABLED'']"
  let ?c2 = "[''netsh'', ''interface'', ''set'', ''interface'', name, ''admin=ENABLED'']"
  obtain r w2 where s: "subprocess ?c1 w = (r, w2)" by (cases "subprocess ?c1 w")
  have o: "raises_only P (os w2)" using subprocess_os [OF s] a by simp
  obtain r' w3 where s': "subprocess ?c2 w2 = (r', w3)" by (cases "subprocess ?c2 w2")
  from b s s' subprocess_raised [OF a, of ?c1] subprocess_raised [OF o, of ?c2]
  show ?thesis
    by (auto simp: restart_adapter_def split: if_splits proc_result.splits)
qed

lemma show_wifi_passwords_os: "show_wifi_passwords dry_run w = (r, w1) \<Longrightarrow> os w1 = os w"
  by (auto simp: show_wifi_passwords_def split: if_splits sum.splits prod.splits
      dest!: list_wifi_profiles_os wifi_loop_os)

lemma show_wifi_passwords_fault:
  "raises_only P (os w) \<Longrightarrow> show_wifi_passwords dry_run w = (Inl ex, w1) \<Longrightarrow> P ex"
proof -
  assume a: "raises_only P (os w)" and b: "show_wifi_passwords dry_run w = (Inl ex, w1)"
  obtain r w2 where s: "list_wifi_profiles w = (r, w2)" by (cases "list_wifi_profiles w")
  have o: "raises_only P (os w2)" using list_wifi_profiles_os [OF s] a by simp
  from b s list_wifi_profiles_fault [OF a] wifi_loop_fault [OF o]
  show ?thesis
    by (auto simp: show_wifi_passwords_def split: if_splits sum.splits prod.splits)
qed

lemma passes_on_exception:
  "(\<And>ex w1. func w = (Inl ex, w1) \<Longrightarrow> is_Exception ex) \<Longrightarrow> passes_on func pfx w"
  by (auto simp: passes_on_def run_with_spinner_def split: prod.splits sum.splits)

lemma raising_restart:
  "restart_adapter ''Ethernet'' False (world_with raising_os [])
     = (Inl (OSError ''netsh not found''),
        (world_with raising_os [])\<lparr>trace :=
           [Call (SubprocessRun [''netsh'', ''interface'', ''set'', ''interface'', ''Ethernet'',
                                 ''admin=DISABLED''])]\<rparr>)"
  by (simp add: restart_adapter_def subprocess_def log_def world_with_def raising_os_def quiet_os_def)

lemma raising_only: "raises_exceptions_only raising_os"
  by (simp add: raises_exceptions_only_def raises_only_def raising_os_def quiet_os_def)

subsection \<open>Steps that carry on\<close>

lemma never_returns:
  assumes "never_raises (os w)"
    and "\<And>ex w1. raises_only (\<lambda>ex. False) (os w) \<Longrightarrow> m w = (Inl ex, w1) \<Longrightarrow> False"
    and "\<And>r w1. m w = (r, w1) \<Longrightarrow> os w1 = os w"
  shows "\<exists>v w1. m w = (Inr v, w1) \<and> os w1 = os w"
proof -
  obtain r w1 where e: "m w = (r, w1)" by (cases "m w")
  from assms(1) have n: "raises_only (\<lambda>ex. False) (os w)" by (simp add: never_raises_def)
  show ?thesis
  proof (cases r)
    case (Inl ex)
    with assms(2) [OF n] e show ?thesis by blast
  next
    case (Inr v)
    with e assms(3) [OF e] show ?thesis by blast
  qed
qed

lemma apply_tcp_optimizations_returns:
  "never_raises (os w) \<Longrightarrow> \<exists>v w1. apply_tcp_optimizations dry_run w = (Inr v, w1) \<and> os w1 = os w"
  by (rule never_returns) (auto dest: apply_tcp_optimizations_fault apply_tcp_optimizations_os)

lemma show_wifi_passwords_returns:
  "never_raises (os w) \<Longrightarrow> \<exists>v w1. show_wifi_passwords dry_run w = (Inr v, w1) \<and> os w1 = os w"
  by (rule never_returns) (auto dest: show_wifi_passwords_fault show_wifi_passwords_os)

lemma restart_adapter_returns:
  "never_raises (os w) \<Longrightarrow> \<exists>v w1. restart_adapter name dry_run w = (Inr v, w1) \<and> os w1 = os w"
  by (rule never_returns) (auto dest: restart_adapter_fault restart_adapter_os)

lemma list_network_adapters_returns:
  "never_raises (os w) \<Longrightarrow>
     \<exists>v w1. list_network_adapters w = (Inr v, w1) \<and> os w1 = os w \<and> stdin w1 = stdin w"
proof -
  assume n: "never_raises (os w)"
  obtain r w1 where e: "list_network_adapters w = (r, w1)" by (cases "list_network_adapters w")
  from n have "raises_only (\<lambda>ex. False) (os w)" by (simp add: never_raises_def)
  from list_network_adapters_fault [OF this] e have "\<exists>v. r = Inr v" by (cases r) auto
  with e list_network_adapters_os [OF e] show ?thesis by auto
qed

lemma ensure_confirm_returns:
  "\<exists>b w1. ensure_confirm p a w = (Inr b, w1) \<and> os w1 = os w"
  by (auto simp: ensure_confirm_def py_input_def log_def Let_def split: list.splits)

lemma spinner_worker_os: "os (spinner_worker pfx w) = os w"
  by (simp add: spinner_worker_def)

lemma print_adapters_returns:
  "\<exists>w1. print_adapters i adapters w = (Inr (), w1) \<and> os w1 = os w \<and> stdin w1 = stdin w"
proof (induction adapters arbitrary: i w)
  case Nil
  then show ?case by (simp add: return_def)
next
  case (Cons a adapters)
  from Cons.IH [of "Suc i" "log (Print ('' '' @ show_nat i @ '') '' @ a)) w"]
  show ?case by (auto simp: seq_def bind_def py_print_def log_def)
qed

lemma gated_carries_on:
  assumes p: "\<And>w. never_raises (os w) \<Longrightarrow> \<exists>v w1. prim w = (Inr v, w1) \<and> os w1 = os w"
    and k: "\<And>ok msg. carries_on (k (ok, msg))"
  shows "carries_on (bind (ensure_confirm prompt assume_yes) (\<lambda>confirmed.
           if \<not> confirmed then py_print skipped
           else bind (run_with_spinner prim pfx) (\<lambda>r. bind (unpack r) k)))"
  unfolding carries_on_def
proof (intro allI impI)
  fix w :: world
  assume n: "never_raises (os w)"
  obtain b w0 where c: "ensure_confirm prompt assume_yes w = (Inr b, w0)" and o: "os w0 = os w"
    using ensure_confirm_returns by blast
  from n o have n0: "never_raises (os w0)" by simp
  from p [OF n0] obtain v w2 where v: "prim w0 = (Inr v, w2)" and o2: "os w2 = os w0" by blast
  obtain ok msg where vv: "v = (ok, msg)" by (cases v)
  from n0 o2 have "never_raises (os (spinner_worker pfx w2))" by (simp add: spinner_worker_os)
  with k [of ok msg] obtain w3 where
    r: "k (ok, msg) (spinner_worker pfx w2) = (Inr (), w3)" and o3: "os w3 = os (spinner_worker pfx w2)"
    unfolding carries_on_def by blast
  show "\<exists>w1. bind (ensure_confirm prompt assume_yes) (\<lambda>confirmed.
           if \<not> confirmed then py_print skipped
           else bind (run_with_spinner prim pfx) (\<lambda>r. bind (unpack r) k)) w = (Inr (), w1) \<and> os w1 = os w"
  proof (cases b)
    case True
    with c v vv r o o2 o3 show ?thesis
      by (simp add: bind_def run_with_spinner_def unpack_def spinner_worker_os)
  next
    case False
    with c o show ?thesis
      by (simp add: bind_def py_print_def log_def)
  qed
qed

lemma carries_on_print: "carries_on (py_print s)"
  by (simp add: carries_on_def py_print_def log_def)

lemma carries_on_return: "carries_on (return ())"
  by (simp add: carries_on_def return_def)

lemma carries_on_seq: "carries_on m \<Longrightarrow> carries_on k \<Longrightarrow> carries_on (seq m k)"
  unfolding carries_on_def seq_def bind_def
  by (auto split: prod.splits sum.splits) (metis Pair_inject sum.inject(2) sum.simps(4))+

lemma carries_on_when: "carries_on m \<Longrightarrow> carries_on (when_selected b m)"
  by (simp add: when_selected_def carries_on_return)

lemma carries_on_halts: "carries_on m \<Longrightarrow> halts_on_input_only m"
  unfolding carries_on_def halts_on_input_only_def by blast

lemma halts_when: "halts_on_input_only m \<Longrightarrow> halts_on_input_only (when_selected b m)"
  by (simp add: when_selected_def carries_on_return carries_on_halts)

lemma halts_seq_left: "halts_on_input_only m \<Longrightarrow> carries_on k \<Longrightarrow> halts_on_input_only (seq m k)"
proof -
  assume m: "halts_on_input_only m" and k: "carries_on k"
  show ?thesis
    unfolding halts_on_input_only_def
  proof (intro allI impI)
    fix w :: world
    assume n: "never_raises (os w)"
    from m n obtain w1 where
      d: "(m w = (Inr (), w1) \<and> os w1 = os w) \<or> (m w = (Inl EOFError, w1) \<and> stdin w1 = [])"
      unfolding halts_on_input_only_def by blast
    then show "\<exists>w1. (seq m k w = (Inr (), w1) \<and> os w1 = os w)
                  \<or> (seq m k w = (Inl EOFError, w1) \<and> stdin w1 = [])"
    proof
      assume a: "m w = (Inr (), w1) \<and> os w1 = os w"
      with n k obtain w2 where "k w1 = (Inr (), w2)" "os w2 = os w1"
        unfolding carries_on_def by metis
      with a show ?thesis by (auto simp: seq_def bind_def)
    next
      assume "m w = (Inl EOFError, w1) \<and> stdin w1 = []"
      then show ?thesis by (auto simp: seq_def bind_def)
    qed
  qed
qed

lemma halts_seq_right: "carries_on m \<Longrightarrow> halts_on_input_only k \<Longrightarrow> halts_on_input_only (seq m k)"
proof -
  assume m: "carries_on m" and k: "halts_on_input_only k"
  show ?thesis
    unfolding halts_on_input_only_def
  proof (intro allI impI)
    fix w :: world
    assume n: "never_raises (os w)"
    from m n obtain w1 where a: "m w = (Inr (), w1)" "os w1 = os w"
      unfolding carries_on_def by blast
    with n k obtain w2 where
      "(k w1 = (Inr (), w2) \<and> os w2 = os w1) \<or> (k w1 = (Inl EOFError, w2) \<and> stdin w2 = [])"
      unfolding halts_on_input_only_def by metis
    with a show "\<exists>w1. (seq m k w = (Inr (), w1) \<and> os w1 = os w)
                  \<or> (seq m k w = (Inl EOFError, w1) \<and> stdin w1 = [])"
      by (auto simp: seq_def bind_def)
  qed
qed

lemma split_print: "(\<lambda>(ok, msg). f msg) (ok, msg) = f msg"
  by simp

lemma step_temp_carries_on: "carries_on (step_temp dry_run assume_yes)"
  unfolding step_temp_def
  by (rule gated_carries_on) (rule clean_temp_dir_returns, simp add: carries_on_print)

lemma step_recycle_carries_on: "carries_on (step_recycle dry_run assume_yes)"
  unfolding step_recycle_def
  by (rule gated_carries_on) (rule empty_recycle_bin_returns, simp add: carries_on_print)

lemma step_tcp_carries_on: "carries_on (step_tcp dry_run assume_yes)"
  unfolding step_tcp_def
  by (rule gated_carries_on)
     (erule apply_tcp_optimizations_returns, simp add: carries_on_print carries_on_seq)

lemma step_wifi_carries_on: "carries_on (step_wifi dry_run assume_yes)"
  unfolding step_wifi_def
  by (rule gated_carries_on)
     (erule show_wifi_passwords_returns, simp add: carries_on_print carries_on_seq)

lemma step_godmode_carries_on: "carries_on (step_godmode dry_run assume_yes)"
  unfolding carries_on_def
proof (intro allI impI)
  fix w :: world
  assume n: "never_raises (os w)"
  obtain b w0 where c: "ensure_confirm ''Create God Mode folder on Desktop?'' assume_yes w = (Inr b, w0)"
    and o: "os w0 = os w"
    using ensure_confirm_returns by blast
  obtain v w2 where v: "create_god_mode dry_run w0 = (Inr v, w2)" and o2: "os w2 = os w0"
    using create_god_mode_returns by blast
  from c o v o2 show "\<exists>w1. step_godmode dry_run assume_yes w = (Inr (), w1) \<and> os w1 = os w"
    by (cases b; cases v) (simp_all add: step_godmode_def bind_def py_print_def log_def)
qed

lemma restart_each_carries_on: "carries_on (restart_each dry_run assume_yes names)"
proof (induction names)
  case Nil
  then show ?case by (simp add: carries_on_return)
next
  case (Cons name names)
  have "carries_on (bind (ensure_confirm (''Restart adapter '' @ [squote] @ name @ [squote]
                           @ ''? This will briefly disconnect network.'') assume_yes) (\<lambda>confirmed.
       if \<not> confirmed
       then seq (py_print (''Skipped restarting '' @ [squote] @ name @ [squote] @ ''.''))
                (restart_each dry_run assume_yes names)
       else
         bind (run_with_spinner (restart_adapter name dry_run)
                 (''Restarting '' @ [squote] @ name @ [squote] @ ''...'')) (\<lambda>r.
         bind (unpack r) (\<lambda>(ok, msg).
         seq (py_print (''Restart '' @ [squote] @ name @ [squote] @ '' -> '' @ msg))
             (restart_each dry_run assume_yes names)))))"
    unfolding carries_on_def
  proof (intro allI impI)
    fix w :: world
    assume n: "never_raises (os w)"
    obtain b w0 where c: "ensure_confirm (''Restart adapter '' @ [squote] @ name @ [squote]
                           @ ''? This will briefly disconnect network.'') assume_yes w = (Inr b, w0)"
      and o: "os w0 = os w"
      using ensure_confirm_returns by blast
    from n o have n0: "never_raises (os w0)" by simp
    from restart_adapter_returns [OF n0] obtain v w2 where
      v: "restart_adapter name dry_run w0 = (Inr v, w2)" and o2: "os w2 = os w0" by blast
    obtain ok msg where vv: "v = (ok, msg)" by (cases v)
    have s: "carries_on (seq (py_print s) (restart_each dry_run assume_yes names))" for s
      by (intro carries_on_seq carries_on_print Cons.IH)
    show "\<exists>w1. bind (ensure_confirm (''Restart adapter '' @ [squote] @ name @ [squote]
                           @ ''? This will briefly disconnect network.'') assume_yes) (\<lambda>confirmed.
       if \<not> confirmed
       then seq (py_print (''Skipped restarting '' @ [squote] @ name @ [squote] @ ''.''))
                (restart_each dry_run assume_yes names)
       else
         bind (run_with_spinner (restart_adapter name dry_run)
                 (''Restarting '' @ [squote] @ name @ [squote] @ ''...'')) (\<lambda>r.
         bind (unpack r) (\<lambda>(ok, msg).
         seq (py_print (''Restart '' @ [squote] @ name @ [squote] @ '' -> '' @ msg))
             (restart_each dry_run assume_yes names)))) w = (Inr (), w1) \<and> os w1 = os w"
    proof (cases b)
      case False
      from s [of "''Skipped restarting '' @ [squote] @ name @ [squote] @ ''.''"] n0
      obtain w3 where "seq (py_print (''Skipped restarting '' @ [squote] @ name @ [squote] @ ''.''))
                (restart_each dry_run assume_yes names) w0 = (Inr (), w3)" "os w3 = os w0"
        unfolding carries_on_def by blast
      with False c o show ?thesis by (simp add: bind_def)
    next
      case True
      from n0 o2 have "never_raises (os (spinner_worker (''Restarting '' @ [squote] @ name @ [squote] @ ''...'') w2))"
        by (simp add: spinner_worker_os)
      with s [of "''Restart '' @ [squote] @ name @ [squote] @ '' -> '' @ msg"]
      obtain w3 where "seq (py_print (''Restart '' @ [squote] @ name @ [squote] @ '' -> '' @ msg))
             (restart_each dry_run assume_yes names)
               (spinner_worker (''Restarting '' @ [squote] @ name @ [squote] @ ''...'') w2) = (Inr (), w3)"
        "os w3 = os (spinner_worker (''Restarting '' @ [squote] @ name @ [squote] @ ''...'') w2)"
        unfolding carries_on_def by blast
      with True c o v vv o2 show ?thesis
        by (simp add: bind_def run_with_spinner_def unpack_def spinner_worker_os)
    qed
  qed
  then show ?case by simp
qed

lemma step_restart_halts: "halts_on_input_only (step_restart dry_run assume_yes)"
  unfolding halts_on_input_only_def
proof (intro allI impI)
  fix w :: world
  assume n: "never_raises (os w)"
  from list_network_adapters_returns [OF n] obtain adapters w1 where
    l: "list_network_adapters w = (Inr adapters, w1)" and o1: "os w1 = os w" by blast
  let ?w2 = "log (Print ''Network adapters:'') w1"
  obtain w3 where p: "print_adapters 1 adapters ?w2 = (Inr (), w3)" and o3: "os w3 = os ?w2"
    using print_adapters_returns by blast
  let ?prompt = "''Enter adapter numbers to restart (comma-separated) or '' @ [squote] @ ''all'' @ [squote] @ '': ''"
  let ?w4 = "log (Prompt ?prompt) w3"
  have o4: "os ?w4 = os w" using o1 o3 by (simp add: log_def)
  show "\<exists>w1. (step_restart dry_run assume_yes w = (Inr (), w1) \<and> os w1 = os w)
           \<or> (step_restart dry_run assume_yes w = (Inl EOFError, w1) \<and> stdin w1 = [])"
  proof (cases "adapters = []")
    case True
    with l o1 show ?thesis by (simp add: step_restart_def bind_def py_print_def log_def)
  next
    case False
    show ?thesis
    proof (cases "stdin w3")
      case Nil
      with False l p show ?thesis
        by (simp add: step_restart_def bind_def seq_def py_print_def py_input_def log_def Let_def)
    next
      case (Cons line pending)
      have n5: "never_raises (os (?w4\<lparr>stdin := pending\<rparr>))" using n o4 by simp
      from restart_each_carries_on [of dry_run assume_yes "resolve_targets adapters (py_strip line)"] n5
      obtain w6 where "restart_each dry_run assume_yes (resolve_targets adapters (py_strip line))
                         (?w4\<lparr>stdin := pending\<rparr>) = (Inr (), w6)" "os w6 = os (?w4\<lparr>stdin := pending\<rparr>)"
        unfolding carries_on_def by blast
      with Cons False l p o4 show ?thesis
        by (simp add: step_restart_def bind_def seq_def py_print_def py_input_def log_def Let_def)
    qed
  qed
qed

lemma run_actions_halts: "halts_on_input_only (run_actions actions dry_run assume_yes)"
proof (cases "actions = []")
  case True
  then show ?thesis by (simp add: run_actions_def carries_on_halts carries_on_print)
next
  case False
  have a: "carries_on (seq (when_selected b5 (step_wifi dry_run assume_yes))
                           (when_selected b6 (step_godmode dry_run assume_yes)))" for b5 b6
    by (intro carries_on_seq carries_on_when step_wifi_carries_on step_godmode_carries_on)
  have b: "halts_on_input_only
             (seq (when_selected b4 (step_restart dry_run assume_yes))
                  (seq (when_selected b5 (step_wifi dry_run assume_yes))
                       (when_selected b6 (step_godmode dry_run assume_yes))))" for b4 b5 b6
    by (intro halts_seq_left halts_when step_restart_halts a)
  have c: "halts_on_input_only
             (seq (when_selected b3 (step_tcp dry_run assume_yes))
             (seq (when_selected b4 (step_restart dry_run assume_yes))
                  (seq (when_selected b5 (step_wifi dry_run assume_yes))
                       (when_selected b6 (step_godmode dry_run assume_yes)))))" for b3 b4 b5 b6
    by (rule halts_seq_right [OF carries_on_when [OF step_tcp_carries_on] b])
  have d: "halts_on_input_only
             (seq (when_selected b2 (step_recycle dry_run assume_yes))
             (seq (when_selected b3 (step_tcp dry_run assume_yes))
             (seq (when_selected b4 (step_restart dry_run assume_yes))
                  (seq (when_selected b5 (step_wifi dry_run assume_yes))
                       (when_selected b6 (step_godmode dry_run assume_yes))))))" for b2 b3 b4 b5 b6
    by (rule halts_seq_right [OF carries_on_when [OF step_recycle_carries_on] c])
  from False show ?thesis
    unfolding run_actions_def
    by (simp add: halts_seq_right [OF carries_on_when [OF step_temp_carries_on] d])
qed

lemma run_actions_carries_on:
  "''restart'' \<notin> set actions \<Longrightarrow> carries_on (run_actions actions dry_run assume_yes)"
  unfolding run_actions_def
  by (auto simp: when_selected_def
      intro!: carries_on_print carries_on_seq carries_on_return step_temp_carries_on
      step_recycle_carries_on step_tcp_carries_on step_wifi_carries_on step_godmode_carries_on)

lemma run_actions_returns:
  "never_raises (os w) \<Longrightarrow>
     fst (run_actions actions dry_run assume_yes w) = Inr ()
     \<or> (fst (run_actions actions dry_run assume_yes w) = Inl EOFError
        \<and> ''restart'' \<in> set actions
        \<and> stdin (snd (run_actions actions dry_run assume_yes w)) = [])"
proof (cases "''restart'' \<in> set actions")
  case True
  assume "never_raises (os w)"
  with run_actions_halts [of actions dry_run assume_yes] True show ?thesis
    unfolding halts_on_input_only_def by (metis fst_conv snd_conv)
next
  case False
  assume "never_raises (os w)"
  with run_actions_carries_on [OF False, of dry_run assume_yes] show ?thesis
    unfolding carries_on_def by (metis fst_conv)
qed

subsection \<open>A failing restart\<close>

lemma adapter_never_raises: "never_raises adapter_os"
  by (simp add: never_raises_def raises_only_def adapter_os_def quiet_os_def)

lemma adapter_parse: "parse_adapters False (py_splitlines adapter_table) = [''Ethernet'']"
  by code_simp

lemma adapter_listing:
  "os w = adapter_os \<Longrightarrow>
     list_network_adapters w
       = (Inr [''Ethernet''], log (Call (SubprocessRun [''netsh'', ''interface'', ''show'', ''interface''])) w)"
  by (simp add: list_network_adapters_def subprocess_def adapter_os_def quiet_os_def adapter_parse)

lemma adapter_restart:
  "os w = adapter_os \<Longrightarrow>
     restart_adapter ''Ethernet'' False w
       = (Inr (False, ''Command failed for '' @ [squote] @ ''Ethernet'' @ [squote] @ '': boom''),
          log (Call (SubprocessRun [''netsh'', ''interface'', ''set'', ''interface'', ''Ethernet'',
                                    ''admin=DISABLED''])) w)"
  by (simp add: restart_adapter_def subprocess_def adapter_os_def quiet_os_def)

lemma adapter_targets: "resolve_targets [''Ethernet''] ''1'' = [''Ethernet'']"
  by (simp add: resolve_targets_def text_defs py_int_def is_digit_def Let_def)

lemma adapter_spinner:
  "os w = adapter_os \<Longrightarrow> spinner_worker p w = w\<lparr>trace := trace w @ [Write clear_line]\<rparr>"
  by (simp add: spinner_quiet adapter_os_def quiet_os_def)

lemma adapter_restart_step:
  "step_restart False True (world_with adapter_os [''1'', ''x''])
     = (Inr (), (world_with adapter_os [''x''])\<lparr>trace :=
          [Call (SubprocessRun [''netsh'', ''interface'', ''show'', ''interface'']),
           Print ''Network adapters:'',
           Print '' 1) Ethernet'',
           Prompt (''Enter adapter numbers to restart (comma-separated) or '' @ [squote] @ ''all''
                   @ [squote] @ '': ''),
           Call (SubprocessRun [''netsh'', ''interface'', ''set'', ''interface'', ''Ethernet'',
                                ''admin=DISABLED'']),
           Write clear_line,
           Print (''Restart '' @ [squote] @ ''Ethernet'' @ [squote] @ '' -> Command failed for ''
                  @ [squote] @ ''Ethernet'' @ [squote] @ '': boom'')]\<rparr>)"
  by (simp add: step_restart_def adapter_listing adapter_restart adapter_targets adapter_spinner
      ensure_confirm_def run_with_spinner_def io_defs world_with_def show_nat.simps Let_def
      py_strip_def is_space_def)

lemma adapter_godmode:
  "os w = adapter_os \<Longrightarrow> step_godmode False True w
     = (Inr (), w\<lparr>trace := trace w @ [Call (PathExists (''H'' @ [backslash] @ ''Desktop'')),
          Print (''Desktop path not found: H'' @ [backslash] @ ''Desktop'')]\<rparr>)"
  by (simp add: step_godmode_def ensure_confirm_def io_defs create_god_mode_def path_join_def Let_def
      quiet_os_def adapter_os_def)

lemma adapter_pass:
  "run_actions [''restart'', ''godmode''] False True (world_with adapter_os [''1'', ''x''])
     = (Inr (), (world_with adapter_os [''x''])\<lparr>trace :=
          [Call (SubprocessRun [''netsh'', ''interface'', ''show'', ''interface'']),
           Print ''Network adapters:'',
           Print '' 1) Ethernet'',
           Prompt (''Enter adapter numbers to restart (comma-separated) or '' @ [squote] @ ''all''
                   @ [squote] @ '': ''),
           Call (SubprocessRun [''netsh'', ''interface'', ''set'', ''interface'', ''Ethernet'',
                                ''admin=DISABLED'']),
           Write clear_line,
           Print (''Restart '' @ [squote] @ ''Ethernet'' @ [squote] @ '' -> Command failed for ''
                  @ [squote] @ ''Ethernet'' @ [squote] @ '': boom''),
           Call (PathExists (''H'' @ [backslash] @ ''Desktop'')),
           Print (''Desktop path not found: H'' @ [backslash] @ ''Desktop'')]\<rparr>)"
  apply (simp add: run_actions_def when_selected_def seq_def bind_def return_def adapter_restart_step)
  apply (simp add: adapter_godmode world_with_def)
  done

subsection \<open>Order of the steps\<close>

lemma seq_return_left: "seq (return ()) k = k"
  by (rule ext) (simp add: seq_def bind_def return_def)

lemma seq_return_right: "seq m (return ()) = m"
  by (rule ext) (auto simp: seq_def bind_def return_def split: prod.splits sum.splits)

lemma run_actions_in_order:
  "actions \<noteq> [] \<Longrightarrow> run_actions actions dry_run assume_yes = run_in_order (schedule actions) dry_run assume_yes"
  by (simp add: run_actions_def schedule_def canonical_order_def perform_def when_selected_def
      seq_return_left seq_return_right)

lemma run_actions_set:
  assumes "set actions = set actions'"
  shows "run_actions actions dry_run assume_yes = run_actions actions' dry_run assume_yes"
proof -
  have "actions = [] \<longleftrightarrow> actions' = []"
    using assms by (metis set_empty)
  with assms show ?thesis by (simp add: run_actions_def)
qed

lemma menu_2_1:
  "fst (interactive_menu (world_with quiet_os [''2,1''])) = Inr [''recycle'', ''temp'']"
  by (simp add: interactive_menu_def menu_lines_def menu_mapping_def io_defs world_with_def
      text_defs Let_def)

lemma quiet_temp_recycle:
  "printed (trace (snd (run_actions [''temp'', ''recycle''] True True (world_with quiet_os []))))
     = [''Clean %TEMP% -> Temp directory '' @ [squote] @ ''T'' @ [squote] @ '' does not exist.'',
        ''Empty Recycle Bin -> Dry-run: would call SHEmptyRecycleBinW for all drives.'']"
  by (simp add: run_actions_def step_temp_def step_recycle_def ensure_confirm_def
      run_with_spinner_def spinner_quiet io_defs clean_temp_dir_def get_temp_dir_def
      empty_recycle_bin_def Let_def world_with_def quiet_os_def)

lemma adapter_dry_restart_step:
  "step_restart True True (world_with adapter_os [''all''])
     = (Inr (), (world_with adapter_os [])\<lparr>trace :=
          [Call (SubprocessRun [''netsh'', ''interface'', ''show'', ''interface'']),
           Print ''Network adapters:'',
           Print '' 1) Ethernet'',
           Prompt (''Enter adapter numbers to restart (comma-separated) or '' @ [squote] @ ''all''
                   @ [squote] @ '': ''),
           Write clear_line,
           Print (''Restart '' @ [squote] @ ''Ethernet'' @ [squote] @ '' -> Dry-run: would restart adapter ''
                  @ [squote] @ ''Ethernet'' @ [squote] @ ''.'')]\<rparr>)"
  by (simp add: step_restart_def adapter_listing restart_adapter_def resolve_targets_def adapter_spinner
      ensure_confirm_def run_with_spinner_def io_defs world_with_def show_nat.simps Let_def
      text_defs)

lemma adapter_dry_wifi:
  "os w = adapter_os \<Longrightarrow> step_wifi True True w
     = (Inr (), w\<lparr>trace := trace w @ [Write clear_line, Print (wi_fi @ '' profiles & passwords ->''),
          Print ''Dry-run: would list saved Wi-Fi profiles and their passwords.'']\<rparr>)"
  by (simp add: step_wifi_def ensure_confirm_def run_with_spinner_def adapter_spinner io_defs
      show_wifi_passwords_def)

lemma adapter_dry_pass:
  "run_actions [''wifi'', ''restart''] True True (world_with adapter_os [''all''])
     = (Inr (), (world_with adapter_os [])\<lparr>trace :=
          [Call (SubprocessRun [''netsh'', ''interface'', ''show'', ''interface'']),
           Print ''Network adapters:'',
           Print '' 1) Ethernet'',
           Prompt (''Enter adapter numbers to restart (comma-separated) or '' @ [squote] @ ''all''
                   @ [squote] @ '': ''),
           Write clear_line,
           Print (''Restart '' @ [squote] @ ''Ethernet'' @ [squote] @ '' -> Dry-run: would restart adapter ''
                  @ [squote] @ ''Ethernet'' @ [squote] @ ''.''),
           Write clear_line,
           Print (wi_fi @ '' profiles & passwords ->''),
           Print ''Dry-run: would list saved Wi-Fi profiles and their passwords.'']\<rparr>)"
  apply (simp add: run_actions_def when_selected_def seq_def bind_def return_def adapter_dry_restart_step)
  apply (simp add: adapter_dry_wifi world_with_def return_def bind_def)
  done

subsection \<open>Flag mode\<close>

lemma flag_actions_not_empty: "cli_flags a \<Longrightarrow> flag_actions a \<noteq> []"
  by (auto simp: cli_flags_def flag_actions_def)

lemma flag_actions_members:
  "\<not> arg_all a \<Longrightarrow>
     flag_actions a
       = filter (\<lambda>x. (x = ''temp'' \<and> arg_clean_temp a) \<or> (x = ''recycle'' \<and> arg_empty_recycle a)
                     \<or> (x = ''tcp'' \<and> arg_optimize_tcp a) \<or> (x = ''restart'' \<and> arg_restart_adapters a)
                     \<or> (x = ''wifi'' \<and> arg_show_wifi a))
           canonical_order"
  by (simp add: flag_actions_def canonical_order_def)

lemma flag_pass_ends:
  assumes "cli_flags a" and "never_raises (os w)"
  shows "(\<exists>w1. main a w = Some (Inr 0, w1))
         \<or> (\<exists>w1. main a w = Some (Inl EOFError, w1) \<and> stdin w1 = []
                  \<and> (arg_all a \<or> arg_restart_adapters a))"
proof -
  let ?r = "run_actions (flag_actions a) (arg_dry_run a) (arg_yes a) w"
  from run_actions_returns [OF assms(2), of "flag_actions a" "arg_dry_run a" "arg_yes a"]
  have "fst ?r = Inr () \<or> (fst ?r = Inl EOFError \<and> ''restart'' \<in> set (flag_actions a) \<and> stdin (snd ?r) = [])" .
  moreover have "''restart'' \<in> set (flag_actions a) \<Longrightarrow> arg_all a \<or> arg_restart_adapters a"
    by (auto simp: flag_actions_def split: if_splits)
  ultimately show ?thesis
    using assms(1) by (cases ?r) (auto simp: main_def)
qed

lemma temp_dry_pass:
  "run_actions [''temp''] True True (world_with (temp_os False) [])
     = (Inr (), (world_with (temp_os False) [])\<lparr>trace :=
          [Call (PathExists ''T''), Call (Walk ''T''), Write clear_line,
           Print ''Clean %TEMP% -> Planned deletions: 3. Failed deletions: 0.'']\<rparr>)"
  by (simp add: run_actions_def when_selected_def step_temp_def ensure_confirm_def
      run_with_spinner_def spinner_quiet io_defs clean_temp_dir_dry planned_message_def
      walk_entries_def get_temp_dir_def show_nat.simps Let_def world_with_def temp_os_def quiet_os_def)

lemma menu_empty_answer:
  "stdin w = [] # rest \<Longrightarrow> interactive_menu w
     = (Inr [], w\<lparr>stdin := rest,
                   trace := trace w @ map Print menu_lines @ [Prompt ''Selection (e.g. 1,2): '']\<rparr>)"
  by (simp add: interactive_menu_def menu_lines_def io_defs py_strip_def Let_def)

section \<open>The confirmation gate\<close>

text \<open>
  Claim C2. With \<open>assume_yes\<close> the gate returns true at once and leaves the world as it is:
  no prompt, no input read. Otherwise it shows the prompt with the suffix \<^verbatim>\<open> [y/N]: \<close> and
  reads one line; the answer is true exactly when that line, trimmed and compared without
  regard to case, is "y" or "yes". At end of stream it returns false and raises nothing.
\<close>

theorem ensure_confirm_gate:
  "ensure_confirm prompt assume_yes w =
     (if assume_yes then (Inr True, w)
      else case stdin w of
             [] \<Rightarrow> (Inr False, log (Prompt (prompt @ '' [y/N]: '')) w)
           | l # ls \<Rightarrow> (Inr (says_yes l), (log (Prompt (prompt @ '' [y/N]: '')) w)\<lparr>stdin := ls\<rparr>))"
  by (simp add: ensure_confirm_def py_input_def says_yes_iff Let_def split: list.split)

theorem ensure_confirm_gate_witness:
  "ensure_confirm ''Go?'' True (world_with quiet_os []) = (Inr True, world_with quiet_os [])
   \<and> ensure_confirm ''Go?'' False (world_with quiet_os ['' YeS '', ''n''])
       = (Inr True, (log (Prompt ''Go? [y/N]: '') (world_with quiet_os ['' YeS '', ''n'']))\<lparr>stdin := [''n'']\<rparr>)
   \<and> fst (ensure_confirm ''Go?'' False (world_with quiet_os [''yess''])) = Inr False
   \<and> fst (ensure_confirm ''Go?'' False (world_with quiet_os [[]])) = Inr False
   \<and> ensure_confirm ''Go?'' False (world_with quiet_os [])
       = (Inr False, log (Prompt ''Go? [y/N]: '') (world_with quiet_os []))"
  by (simp add: ensure_confirm_gate says_yes_iff world_with_def text_defs)

section \<open>The orchestrator on an empty selection\<close>

text \<open>
  Claim C8. Called with no actions, the orchestrator prints the one notice
  "No actions selected." and returns: the input is untouched and the trace gains no prompt,
  no progress line and no system call.
\<close>

theorem run_actions_empty:
  "run_actions [] dry_run assume_yes w
     = (Inr (), w\<lparr>trace := trace w @ [Print ''No actions selected.'']\<rparr>)"
  by (simp add: run_actions_def py_print_def log_def)

theorem run_actions_empty_witness:
  "run_actions [] False False (world_with quiet_os [''y''])
     = (Inr (), (world_with quiet_os [''y''])\<lparr>trace := [Print ''No actions selected.'']\<rparr>)"
  using run_actions_empty [of False False "world_with quiet_os [''y'']"]
  by (simp add: world_with_def)

section \<open>TCP optimisations always report success\<close>

text \<open>
  Claim C9. Whenever \<open>apply_tcp_optimizations\<close> returns a result instead of raising, the
  success flag is true. In a real run the message has one line per command, in order:
  an "OK:" line where the command completed and a "FAILED:" line where it failed, so a
  failed command shows in the text only.
\<close>

theorem apply_tcp_optimizations_success:
  "apply_tcp_optimizations dry_run w = (Inr (ok, msg), w') \<Longrightarrow>
     ok \<and> (dry_run \<or> msg = join [newline] (map (\<lambda>(c, r). report_line c r)
                                   (zip tcp_commands (tcp_results tcp_commands w))))"
  by (auto simp: apply_tcp_optimizations_def split: if_splits prod.splits sum.splits dest: tcp_loop_lines)

theorem apply_tcp_optimizations_success_witness:
  "apply_tcp_optimizations False (world_with failing_os [])
     = (Inr (True, join [newline] (map (\<lambda>c. ''FAILED: '' @ join '' '' c @ '' -> boom'') tcp_commands)),
        (world_with failing_os [])\<lparr>trace := map (\<lambda>c. Call (SubprocessRun c)) tcp_commands\<rparr>)
   \<and> join [newline] (map (\<lambda>c. ''FAILED: '' @ join '' '' c @ '' -> boom'') tcp_commands)
       = join [newline] (map (\<lambda>(c, r). report_line c r)
           (zip tcp_commands (tcp_results tcp_commands (world_with failing_os []))))"
  using failing_run apply_tcp_optimizations_success [OF failing_run] by simp

section \<open>Cleaning the temp directory\<close>

text \<open>
  Claim C10. \<open>clean_temp_dir\<close> never raises, and its success flag is false exactly when
  the temp directory does not exist; the message then says so. When the directory exists the
  flag is true whatever the deletions did, and the message is the report
  "Planned deletions: d. Failed deletions: f.": in a real run \<open>d\<close> counts the attempts
  that succeeded and \<open>f\<close> the file removals that failed, so a failed deletion shows in the
  count only; in a dry run \<open>d\<close> counts everything listed and \<open>f\<close> is zero. The trace
  gains the existence test, the listing and, in a real run, one call for each attempt.
  The witness is a run in which one file of two cannot be removed.
\<close>

theorem clean_temp_dir_success:
  "clean_temp_dir dry_run w =
     (let t = get_temp_dir (os w);
          asked = trace w @ [Call (PathExists t)];
          listed = asked @ [Call (Walk t)];
          cs = attempts (walk_bottom_up (os w) asked t);
          rs = outcomes (os w) listed cs
      in if \<not> path_exists (os w) (trace w) t
         then (Inr (False, ''Temp directory '' @ [squote] @ t @ [squote] @ '' does not exist.''),
               w\<lparr>trace := asked\<rparr>)
         else if dry_run
         then (Inr (True, planned_message (length cs) 0), w\<lparr>trace := listed\<rparr>)
         else (Inr (True, planned_message (succeeded cs rs) (failed_removals cs rs)),
               w\<lparr>trace := listed @ map Call cs\<rparr>))"
  by (cases dry_run)
     (simp_all add: clean_temp_dir_def Let_def clean_walk_dry clean_walk_real planned_message_def
        log_def attempts_length)

theorem clean_temp_dir_success_witness:
  "clean_temp_dir False (world_with (temp_os True) [])
     = (Inr (True, ''Planned deletions: 2. Failed deletions: 1.''),
        (world_with (temp_os True) [])\<lparr>trace :=
           [Call (PathExists ''T''), Call (Walk ''T''),
            Call (Remove (''T'' @ [backslash] @ ''a'')), Call (Remove (''T'' @ [backslash] @ ''b'')),
            Call (Rmdir (''T'' @ [backslash] @ ''d''))]\<rparr>)
   \<and> outcomes (temp_os True) [Call (PathExists ''T''), Call (Walk ''T'')]
        [Remove (''T'' @ [backslash] @ ''a''), Remove (''T'' @ [backslash] @ ''b''),
         Rmdir (''T'' @ [backslash] @ ''d'')] = [True, False, True]
   \<and> clean_temp_dir False (world_with quiet_os [])
     = (Inr (False, ''Temp directory '' @ [squote] @ ''T'' @ [squote] @ '' does not exist.''),
        (world_with quiet_os [])\<lparr>trace := [Call (PathExists ''T'')]\<rparr>)"
  using clean_temp_dir_success [of False "world_with (temp_os True) []"]
    clean_temp_dir_success [of False "world_with quiet_os []"]
  by (simp add: world_with_def temp_os_def quiet_os_def get_temp_dir_def path_join_def Let_def
      succeeded_def failed_removals_def planned_message_def show_nat.simps)

section \<open>Dry runs\<close>

text \<open>
  Claim C4, as amended. With \<open>dry_run\<close> every primitive leaves the system alone: five of
  them return at once, without any event, a success whose message starts with "Dry-run:";
  \<open>clean_temp_dir\<close> only asks whether the temp directory exists and lists it, and
  returns the same report it gives for a real run, counting every file and directory
  listed, with no failure (or the "does not exist" failure).
\<close>

theorem dry_run_primitives:
  "(\<exists>msg. empty_recycle_bin True w = (Inr (True, msg), w) \<and> prefix ''Dry-run:'' msg)
   \<and> (\<exists>msg. apply_tcp_optimizations True w = (Inr (True, msg), w) \<and> prefix ''Dry-run:'' msg)
   \<and> (\<exists>msg. restart_adapter name True w = (Inr (True, msg), w) \<and> prefix ''Dry-run:'' msg)
   \<and> (\<exists>msg. show_wifi_passwords True w = (Inr (True, msg), w) \<and> prefix ''Dry-run:'' msg)
   \<and> (\<exists>msg. create_god_mode True w = (Inr (True, msg), w) \<and> prefix ''Dry-run:'' msg)
   \<and> (\<exists>r es. clean_temp_dir True w = (Inr r, w\<lparr>trace := trace w @ es\<rparr>) \<and> no_mutation es
        \<and> r = (if path_exists (os w) (trace w) (get_temp_dir (os w))
               then (True, planned_message (walk_entries (walk_bottom_up (os w)
                      (trace w @ [Call (PathExists (get_temp_dir (os w)))]) (get_temp_dir (os w)))) 0)
               else (False, ''Temp directory '' @ [squote] @ get_temp_dir (os w) @ [squote]
                            @ '' does not exist.'')))"
proof -
  have 1: "\<exists>msg. empty_recycle_bin True w = (Inr (True, msg), w) \<and> prefix ''Dry-run:'' msg"
    by (simp add: empty_recycle_bin_def)
  have 2: "\<exists>msg. apply_tcp_optimizations True w = (Inr (True, msg), w) \<and> prefix ''Dry-run:'' msg"
    by (simp add: apply_tcp_optimizations_def)
  have 3: "\<exists>msg. restart_adapter name True w = (Inr (True, msg), w) \<and> prefix ''Dry-run:'' msg"
    by (simp add: restart_adapter_def)
  have 4: "\<exists>msg. show_wifi_passwords True w = (Inr (True, msg), w) \<and> prefix ''Dry-run:'' msg"
    by (simp add: show_wifi_passwords_def)
  have 5: "\<exists>msg. create_god_mode True w = (Inr (True, msg), w) \<and> prefix ''Dry-run:'' msg"
    by (simp add: create_god_mode_def Let_def)
  have 6: "\<exists>r es. clean_temp_dir True w = (Inr r, w\<lparr>trace := trace w @ es\<rparr>) \<and> no_mutation es
        \<and> r = (if path_exists (os w) (trace w) (get_temp_dir (os w))
               then (True, planned_message (walk_entries (walk_bottom_up (os w)
                      (trace w @ [Call (PathExists (get_temp_dir (os w)))]) (get_temp_dir (os w)))) 0)
               else (False, ''Temp directory '' @ [squote] @ get_temp_dir (os w) @ [squote]
                            @ '' does not exist.''))"
  proof (cases "path_exists (os w) (trace w) (get_temp_dir (os w))")
    case True
    then show ?thesis
      by (intro exI [where x = "[Call (PathExists (get_temp_dir (os w))), Call (Walk (get_temp_dir (os w)))]"] exI)
         (simp add: clean_temp_dir_dry Let_def no_mutation_def)
  next
    case False
    then show ?thesis
      by (intro exI [where x = "[Call (PathExists (get_temp_dir (os w)))]"] exI)
         (simp add: clean_temp_dir_dry Let_def no_mutation_def)
  qed
  from 1 2 3 4 5 6 show ?thesis by blast
qed

theorem dry_run_primitives_witness:
  "(\<exists>msg. restart_adapter ''Wi-Fi'' True (world_with (temp_os False) [])
             = (Inr (True, msg), world_with (temp_os False) []) \<and> prefix ''Dry-run:'' msg)
   \<and> (\<exists>r es. clean_temp_dir True (world_with (temp_os False) [])
             = (Inr r, (world_with (temp_os False) [])\<lparr>trace := es\<rparr>) \<and> no_mutation es
        \<and> r = (True, planned_message 3 0))"
proof -
  let ?w = "world_with (temp_os False) []"
  have a: "trace ?w = []"
    by (simp add: world_with_def)
  have b: "path_exists (os ?w) [] (get_temp_dir (os ?w))"
    by (simp add: world_with_def temp_os_def quiet_os_def)
  have c: "walk_entries (walk_bottom_up (os ?w) h (get_temp_dir (os ?w))) = 3" for h
    by (simp add: world_with_def temp_os_def quiet_os_def walk_entries_def)
  from dry_run_primitives [of ?w "''Wi-Fi''"] show ?thesis
    by (simp add: a b c)
qed

text \<open>
  The claim as stated fails for \<open>clean_temp_dir\<close>: on a temp directory whose entries can
  all be removed, the dry run and the real run return the very same message, and it has
  no "Dry-run" prefix.
\<close>

theorem dry_run_message_counterexample:
  "fst (clean_temp_dir True (world_with (temp_os False) []))
     = Inr (True, ''Planned deletions: 3. Failed deletions: 0.'')
   \<and> fst (clean_temp_dir False (world_with (temp_os False) []))
     = Inr (True, ''Planned deletions: 3. Failed deletions: 0.'')
   \<and> \<not> prefix ''Dry-run'' ''Planned deletions: 3. Failed deletions: 0.''"
  by (simp add: clean_temp_dir_def get_temp_dir_def log_def path_join_def show_nat.simps Let_def
      world_with_def temp_os_def quiet_os_def)

section \<open>Adapter selection\<close>

text \<open>
  Claim C5. For every list of adapters: a selection that reads "all" in any case gives the
  whole list in its order; "2" gives exactly the second adapter when there is one; a token
  that is a number below 1 or above the number of adapters adds nothing to the targets, and
  as the only token it gives no target at all. No fault can arise: the resolution is a
  total function.
\<close>

theorem adapter_selection:
  "(py_lower sel = ''all'' \<longrightarrow> resolve_targets adapters sel = adapters)
   \<and> (2 \<le> length adapters \<longrightarrow> resolve_targets adapters ''2'' = [adapters ! 1])
   \<and> (py_int (py_strip tok) = Some n \<and> (n < 1 \<or> int (length adapters) < n) \<longrightarrow>
        resolve_tokens adapters (tok # toks) targets = resolve_tokens adapters toks targets)
   \<and> (py_int (py_strip tok) = Some n \<and> (n < 1 \<or> int (length adapters) < n)
        \<and> CHR '','' \<notin> set tok \<and> py_lower tok \<noteq> ''all'' \<longrightarrow>
        resolve_targets adapters tok = [])"
proof (intro conjI impI)
  assume "py_lower sel = ''all''"
  then show "resolve_targets adapters sel = adapters" by (simp add: resolve_targets_def)
next
  assume "2 \<le> length adapters"
  then show "resolve_targets adapters ''2'' = [adapters ! 1]"
    by (simp add: resolve_targets_def text_defs py_int_def is_digit_def Let_def)
next
  assume "py_int (py_strip tok) = Some n \<and> (n < 1 \<or> int (length adapters) < n)"
  then show "resolve_tokens adapters (tok # toks) targets = resolve_tokens adapters toks targets"
    using resolve_tokens_out_of_range by blast
next
  assume a: "py_int (py_strip tok) = Some n \<and> (n < 1 \<or> int (length adapters) < n)
        \<and> CHR '','' \<notin> set tok \<and> py_lower tok \<noteq> ''all''"
  then have "resolve_tokens adapters [tok] [] = resolve_tokens adapters [] []"
    using resolve_tokens_out_of_range by blast
  with a show "resolve_targets adapters tok = []"
    by (simp add: resolve_targets_def split_on_no_sep)
qed

theorem adapter_selection_witness:
  "py_lower ''ALL'' = ''all'' \<and> resolve_targets [''Ethernet'', ''Wi-Fi''] ''ALL'' = [''Ethernet'', ''Wi-Fi'']
   \<and> resolve_targets [''Ethernet'', ''Wi-Fi''] ''2'' = [''Wi-Fi'']
   \<and> py_int (py_strip ''9'') = Some 9
   \<and> resolve_tokens [''Ethernet'', ''Wi-Fi''] [''9'', ''1''] [] = resolve_tokens [''Ethernet'', ''Wi-Fi''] [''1''] []
   \<and> resolve_targets [''Ethernet'', ''Wi-Fi''] ''9'' = []"
proof -
  have l: "py_lower ''ALL'' = ''all''" and l9: "py_lower ''9'' \<noteq> ''all''"
    by (simp_all add: text_defs)
  from adapter_selection [of "''ALL''" "[''Ethernet'', ''Wi-Fi'']" "''9''" 9 "[''1'']" "[]"] l l9 py_int_9
  show ?thesis by simp
qed

section \<open>The progress runner\<close>

text \<open>
  Claim C6. The runner returns the value the wrapped function returned, and when the
  function raised an \<^verbatim>\<open>Exception\<close> it raises that same fault. The worker's
  \<^verbatim>\<open>except Exception\<close> would not store any other fault, and the runner would then
  return \<^verbatim>\<open>None\<close>; the five primitives the orchestrator wraps raise nothing but what
  a process call raised, so on a system whose process calls raise instances of
  \<^verbatim>\<open>Exception\<close> only, the runner passes on every value and every fault of theirs.
  In all cases the events of the function come first, the clearing of the progress line is
  the last event before the runner hands over, and no input is consumed. The witness is a
  restart on a system without \<^verbatim>\<open>netsh\<close>: the \<open>OSError\<close> of the primitive reaches the
  caller after the line was cleared.
\<close>

theorem run_with_spinner_result:
  "(func w = (Inr v, w1) \<longrightarrow> run_with_spinner func pfx w = (Inr (Some v), spinner_worker pfx w1))
   \<and> (func w = (Inl ex, w1) \<and> is_Exception ex \<longrightarrow>
        run_with_spinner func pfx w = (Inl ex, spinner_worker pfx w1))
   \<and> (func w = (Inl ex, w1) \<and> \<not> is_Exception ex \<longrightarrow>
        run_with_spinner func pfx w = (Inr None, spinner_worker pfx w1))
   \<and> (raises_exceptions_only (os w) \<longrightarrow>
        passes_on (clean_temp_dir dry_run) pfx w
        \<and> passes_on (empty_recycle_bin dry_run) pfx w
        \<and> passes_on (apply_tcp_optimizations dry_run) pfx w
        \<and> passes_on (restart_adapter name dry_run) pfx w
        \<and> passes_on (show_wifi_passwords dry_run) pfx w)
   \<and> last (trace (snd (run_with_spinner func pfx w))) = Write clear_line
   \<and> stdin (spinner_worker pfx w1) = stdin w1
   \<and> take (length (trace w1)) (trace (spinner_worker pfx w1)) = trace w1"
proof -
  have a: "func w = (Inr v, w1) \<longrightarrow> run_with_spinner func pfx w = (Inr (Some v), spinner_worker pfx w1)"
    by (simp add: run_with_spinner_def)
  have b: "func w = (Inl ex, w1) \<and> is_Exception ex \<longrightarrow>
        run_with_spinner func pfx w = (Inl ex, spinner_worker pfx w1)"
    by (simp add: run_with_spinner_def)
  have c: "func w = (Inl ex, w1) \<and> \<not> is_Exception ex \<longrightarrow>
        run_with_spinner func pfx w = (Inr None, spinner_worker pfx w1)"
    by (simp add: run_with_spinner_def)
  have d: "raises_exceptions_only (os w) \<longrightarrow>
        passes_on (clean_temp_dir dry_run) pfx w
        \<and> passes_on (empty_recycle_bin dry_run) pfx w
        \<and> passes_on (apply_tcp_optimizations dry_run) pfx w
        \<and> passes_on (restart_adapter name dry_run) pfx w
        \<and> passes_on (show_wifi_passwords dry_run) pfx w"
  proof (intro impI conjI)
    assume "raises_exceptions_only (os w)"
    then have r: "raises_only is_Exception (os w)" by (simp add: raises_exceptions_only_def)
    show "passes_on (clean_temp_dir dry_run) pfx w"
      using clean_temp_dir_returns [of dry_run w] by (intro passes_on_exception) auto
    show "passes_on (empty_recycle_bin dry_run) pfx w"
      using empty_recycle_bin_returns [of dry_run w] by (intro passes_on_exception) auto
    show "passes_on (apply_tcp_optimizations dry_run) pfx w"
      by (intro passes_on_exception) (rule apply_tcp_optimizations_fault [OF r])
    show "passes_on (restart_adapter name dry_run) pfx w"
      by (intro passes_on_exception) (rule restart_adapter_fault [OF r])
    show "passes_on (show_wifi_passwords dry_run) pfx w"
      by (intro passes_on_exception) (rule show_wifi_passwords_fault [OF r])
  qed
  have e: "last (trace (snd (run_with_spinner func pfx w))) = Write clear_line"
    by (auto simp: run_with_spinner_def spinner_worker_def clear_line_def split: prod.splits sum.splits)
  have f: "stdin (spinner_worker pfx w1) = stdin w1"
    by (simp add: spinner_worker_def)
  have g: "take (length (trace w1)) (trace (spinner_worker pfx w1)) = trace w1"
    by (simp add: spinner_worker_def)
  from a b c d e f g show ?thesis by blast
qed

theorem run_with_spinner_result_witness:
  "fst (run_with_spinner (empty_recycle_bin True) ''Emptying Recycle Bin...'' (world_with quiet_os []))
     = Inr (Some (True, ''Dry-run: would call SHEmptyRecycleBinW for all drives.''))
   \<and> raises_exceptions_only raising_os
   \<and> fst (restart_adapter ''Ethernet'' False (world_with raising_os [])) = Inl (OSError ''netsh not found'')
   \<and> run_with_spinner (restart_adapter ''Ethernet'' False) ''Restarting...'' (world_with raising_os [])
     = (Inl (OSError ''netsh not found''),
        (world_with raising_os [])\<lparr>trace :=
           [Call (SubprocessRun [''netsh'', ''interface'', ''set'', ''interface'', ''Ethernet'',
                                 ''admin=DISABLED'']),
            Write clear_line]\<rparr>)"
proof -
  have a: "empty_recycle_bin True (world_with quiet_os [])
      = (Inr (True, ''Dry-run: would call SHEmptyRecycleBinW for all drives.''), world_with quiet_os [])"
    by (simp add: empty_recycle_bin_def)
  have o: "os (world_with raising_os []) = raising_os"
    by (simp add: world_with_def)
  have p: "passes_on (restart_adapter ''Ethernet'' False) ''Restarting...'' (world_with raising_os [])"
    using run_with_spinner_result [of "restart_adapter ''Ethernet'' False" "world_with raising_os []"
        undefined undefined "''Restarting...''" undefined False "''Ethernet''"]
      raising_only o by simp
  have s: "spinner_worker pfx ((world_with raising_os [])\<lparr>trace := tr\<rparr>)
             = (world_with raising_os [])\<lparr>trace := tr @ [Write clear_line]\<rparr>" for pfx tr
    by (simp add: spinner_quiet world_with_def raising_os_def quiet_os_def)
  from run_with_spinner_result [of "empty_recycle_bin True" "world_with quiet_os []"
      "(True, ''Dry-run: would call SHEmptyRecycleBinW for all drives.'')" "world_with quiet_os []"
      "''Emptying Recycle Bin...''"] a
  have "fst (run_with_spinner (empty_recycle_bin True) ''Emptying Recycle Bin...'' (world_with quiet_os []))
     = Inr (Some (True, ''Dry-run: would call SHEmptyRecycleBinW for all drives.''))"
    by simp
  moreover from p have "run_with_spinner (restart_adapter ''Ethernet'' False) ''Restarting...'' (world_with raising_os [])
     = (Inl (OSError ''netsh not found''),
        (world_with raising_os [])\<lparr>trace :=
           [Call (SubprocessRun [''netsh'', ''interface'', ''set'', ''interface'', ''Ethernet'',
                                 ''admin=DISABLED'']),
            Write clear_line]\<rparr>)"
    by (simp add: passes_on_def raising_restart s)
  ultimately show ?thesis using raising_only raising_restart by simp
qed

section \<open>A failed action does not stop the pass\<close>

text \<open>
  Claim C7. Once an action is confirmed and its primitive returns a result, whatever the
  success flag, the orchestrator prints the message and goes on with whatever follows
  (\<open>rest\<close>). The same holds inside the adapter loop for each adapter, the loop returns
  when no adapter is left, and the restart action hands over to that loop and then to what
  follows. When no adapter is listed, the restart action prints its notice and the pass goes
  on. For the pass as a whole: on a system whose process calls never raise, so that every
  failure is a reported one, \<open>run_actions\<close> returns normally for every selection and
  every answer of the system; the one exception is the end of input at the prompt for the
  adapter selection. The first witness is a pass over all six actions on a system where
  every one of them fails; the second is a pass over restart and God Mode with one adapter
  whose restart fails: the pass returns normally and each action has printed its failure,
  in order.
\<close>

theorem failure_is_not_fatal:
  "(ensure_confirm ''Proceed to clean %TEMP%?'' assume_yes w = (Inr True, w1)
      \<and> clean_temp_dir dry_run w1 = (Inr (ok, msg), w2) \<longrightarrow>
    seq (step_temp dry_run assume_yes) rest w
      = rest (log (Print (''Clean %TEMP% -> '' @ msg)) (spinner_worker ''Cleaning %TEMP%...'' w2)))
   \<and> (ensure_confirm ''Proceed to empty the Recycle Bin?'' assume_yes w = (Inr True, w1)
      \<and> empty_recycle_bin dry_run w1 = (Inr (ok, msg), w2) \<longrightarrow>
    seq (step_recycle dry_run assume_yes) rest w
      = rest (log (Print (''Empty Recycle Bin -> '' @ msg)) (spinner_worker ''Emptying Recycle Bin...'' w2)))
   \<and> (ensure_confirm ''Proceed to apply TCP optimizations? (may require admin)'' assume_yes w = (Inr True, w1)
      \<and> apply_tcp_optimizations dry_run w1 = (Inr (ok, msg), w2) \<longrightarrow>
    seq (step_tcp dry_run assume_yes) rest w
      = rest (log (Print msg) (log (Print ''TCP optimizations ->'')
               (spinner_worker ''Applying TCP optimizations...'' w2))))
   \<and> (ensure_confirm (''Proceed to list '' @ wi_fi
          @ '' profiles and passwords? (requires appropriate privileges)'') assume_yes w = (Inr True, w1)
      \<and> show_wifi_passwords dry_run w1 = (Inr (ok, msg), w2) \<longrightarrow>
    seq (step_wifi dry_run assume_yes) rest w
      = rest (log (Print msg) (log (Print (wi_fi @ '' profiles & passwords ->''))
               (spinner_worker (''Gathering '' @ wi_fi @ '' profiles...'') w2))))
   \<and> (ensure_confirm ''Create God Mode folder on Desktop?'' assume_yes w = (Inr True, w1)
      \<and> create_god_mode dry_run w1 = (Inr (ok, msg), w2) \<longrightarrow>
    seq (step_godmode dry_run assume_yes) rest w = rest (log (Print msg) w2))
   \<and> (list_network_adapters w = (Inr [], w1) \<longrightarrow>
    seq (step_restart dry_run assume_yes) rest w
      = rest (log (Print ''No adapters found or failed to list adapters.'') w1))
   \<and> (ensure_confirm (''Restart adapter '' @ [squote] @ name @ [squote]
          @ ''? This will briefly disconnect network.'') assume_yes w = (Inr True, w1)
      \<and> restart_adapter name dry_run w1 = (Inr (ok, msg), w2) \<longrightarrow>
    restart_each dry_run assume_yes (name # names) w
      = restart_each dry_run assume_yes names
          (log (Print (''Restart '' @ [squote] @ name @ [squote] @ '' -> '' @ msg))
             (spinner_worker (''Restarting '' @ [squote] @ name @ [squote] @ ''...'') w2)))
   \<and> restart_each dry_run assume_yes [] w = (Inr (), w)
   \<and> (list_network_adapters w = (Inr adapters, w1) \<and> adapters \<noteq> []
      \<and> stdin w1 = line # pending \<and> py_strip line \<noteq> [] \<longrightarrow>
    seq (step_restart dry_run assume_yes) rest w
      = seq (restart_each dry_run assume_yes (resolve_targets adapters (py_strip line))) rest
          ((log (Prompt (''Enter adapter numbers to restart (comma-separated) or '' @ [squote]
                         @ ''all'' @ [squote] @ '': ''))
              (snd (print_adapters 1 adapters (log (Print ''Network adapters:'') w1))))
           \<lparr>stdin := pending\<rparr>))
   \<and> (never_raises (os w) \<longrightarrow>
        fst (run_actions actions dry_run assume_yes w) = Inr ()
        \<or> (fst (run_actions actions dry_run assume_yes w) = Inl EOFError
           \<and> ''restart'' \<in> set actions
           \<and> stdin (snd (run_actions actions dry_run assume_yes w)) = []))"
proof (intro conjI)
  show "restart_each dry_run assume_yes [] w = (Inr (), w)"
    by (simp add: return_def)
  show "never_raises (os w) \<longrightarrow>
        fst (run_actions actions dry_run assume_yes w) = Inr ()
        \<or> (fst (run_actions actions dry_run assume_yes w) = Inl EOFError
           \<and> ''restart'' \<in> set actions
           \<and> stdin (snd (run_actions actions dry_run assume_yes w)) = [])"
    using run_actions_returns by blast
  show "list_network_adapters w = (Inr adapters, w1) \<and> adapters \<noteq> []
      \<and> stdin w1 = line # pending \<and> py_strip line \<noteq> [] \<longrightarrow>
    seq (step_restart dry_run assume_yes) rest w
      = seq (restart_each dry_run assume_yes (resolve_targets adapters (py_strip line))) rest
          ((log (Prompt (''Enter adapter numbers to restart (comma-separated) or '' @ [squote]
                         @ ''all'' @ [squote] @ '': ''))
              (snd (print_adapters 1 adapters (log (Print ''Network adapters:'') w1))))
           \<lparr>stdin := pending\<rparr>)"
  proof (intro impI, elim conjE)
    assume l: "list_network_adapters w = (Inr adapters, w1)" and a: "adapters \<noteq> []"
      and i: "stdin w1 = line # pending" and s: "py_strip line \<noteq> []"
    obtain w3 where p: "print_adapters 1 adapters (log (Print ''Network adapters:'') w1) = (Inr (), w3)"
      and "stdin w3 = stdin (log (Print ''Network adapters:'') w1)"
      using print_adapters_returns by blast
    then have "stdin w3 = line # pending" using i by (simp add: log_def)
    with l a s p show "seq (step_restart dry_run assume_yes) rest w
      = seq (restart_each dry_run assume_yes (resolve_targets adapters (py_strip line))) rest
          ((log (Prompt (''Enter adapter numbers to restart (comma-separated) or '' @ [squote]
                         @ ''all'' @ [squote] @ '': ''))
              (snd (print_adapters 1 adapters (log (Print ''Network adapters:'') w1))))
           \<lparr>stdin := pending\<rparr>)"
      by (simp add: step_restart_def bind_def seq_def py_print_def py_input_def log_def Let_def)
  qed
qed (simp_all add: step_temp_def step_recycle_def step_tcp_def step_wifi_def step_godmode_def
      step_restart_def run_with_spinner_def io_defs)

theorem failure_is_not_fatal_witness:
  "empty_recycle_bin False (world_with broken_os [])
     = (Inr (False, ''Exception calling SHEmptyRecycleBinW: denied''),
        log (Call (SHEmptyRecycleBinW 7)) (world_with broken_os []))
   \<and> seq (step_recycle False True) (step_godmode False True) (world_with broken_os [])
     = step_godmode False True
         (log (Print ''Empty Recycle Bin -> Exception calling SHEmptyRecycleBinW: denied'')
            (spinner_worker ''Emptying Recycle Bin...''
               (log (Call (SHEmptyRecycleBinW 7)) (world_with broken_os []))))
   \<and> fst (run_actions all_actions False True (world_with broken_os [])) = Inr ()
   \<and> printed (trace (snd (run_actions all_actions False True (world_with broken_os [])))) =
     [''Clean %TEMP% -> Temp directory '' @ [squote] @ ''T'' @ [squote] @ '' does not exist.'',
      ''Empty Recycle Bin -> Exception calling SHEmptyRecycleBinW: denied'',
      ''TCP optimizations ->'',
      join [newline] (map (\<lambda>c. ''FAILED: '' @ join '' '' c @ '' -> boom'') tcp_commands),
      ''No adapters found or failed to list adapters.'',
      wi_fi @ '' profiles & passwords ->'',
      ''No Wi-Fi profiles found or failed to query profiles.'',
      ''Desktop path not found: H'' @ [backslash] @ ''Desktop'']
   \<and> never_raises adapter_os
   \<and> fst (list_network_adapters (world_with adapter_os [''1'', ''x''])) = Inr [''Ethernet'']
   \<and> fst (restart_adapter ''Ethernet'' False (world_with adapter_os []))
       = Inr (False, ''Command failed for '' @ [squote] @ ''Ethernet'' @ [squote] @ '': boom'')
   \<and> fst (run_actions [''restart'', ''godmode''] False True (world_with adapter_os [''1'', ''x''])) = Inr ()
   \<and> printed (trace (snd (run_actions [''restart'', ''godmode''] False True
                             (world_with adapter_os [''1'', ''x''])))) =
     [''Network adapters:'', '' 1) Ethernet'',
      ''Restart '' @ [squote] @ ''Ethernet'' @ [squote] @ '' -> Command failed for ''
        @ [squote] @ ''Ethernet'' @ [squote] @ '': boom'',
      ''Desktop path not found: H'' @ [backslash] @ ''Desktop'']"
proof -
  have c: "ensure_confirm ''Proceed to empty the Recycle Bin?'' True (world_with broken_os [])
      = (Inr True, world_with broken_os [])"
    by (rule ensure_confirm_yes)
  have r: "seq (step_recycle False True) (step_godmode False True) (world_with broken_os [])
     = step_godmode False True
         (log (Print ''Empty Recycle Bin -> Exception calling SHEmptyRecycleBinW: denied'')
            (spinner_worker ''Emptying Recycle Bin...''
               (log (Call (SHEmptyRecycleBinW 7)) (world_with broken_os []))))"
    using failure_is_not_fatal [THEN conjunct2, THEN conjunct1, THEN mp, OF conjI [OF c broken_recycle]]
    by simp
  have b: "fst (run_actions all_actions False True (world_with broken_os [])) = Inr ()"
    by (simp add: broken_pass)
  have o: "os (world_with adapter_os [''1'', ''x'']) = adapter_os"
    by (simp add: world_with_def)
  have x: "stdin (snd (run_actions [''restart'', ''godmode''] False True
                         (world_with adapter_os [''1'', ''x'']))) = [''x'']"
    unfolding adapter_pass by (simp add: world_with_def)
  have n: "never_raises (os (world_with adapter_os [''1'', ''x'']))"
    unfolding o by (rule adapter_never_raises)
  note failure_is_not_fatal [where w = "world_with adapter_os [''1'', ''x'']"
      and actions = "[''restart'', ''godmode'']" and dry_run = False and assume_yes = True,
      THEN conjunct2, THEN conjunct2, THEN conjunct2, THEN conjunct2, THEN conjunct2,
      THEN conjunct2, THEN conjunct2, THEN conjunct2, THEN conjunct2, THEN mp, OF n]
  then have p: "fst (run_actions [''restart'', ''godmode''] False True (world_with adapter_os [''1'', ''x''])) = Inr ()"
    unfolding x by simp
  have l: "fst (list_network_adapters (world_with adapter_os [''1'', ''x''])) = Inr [''Ethernet'']"
    by (simp add: adapter_listing o)
  have f: "fst (restart_adapter ''Ethernet'' False (world_with adapter_os []))
       = Inr (False, ''Command failed for '' @ [squote] @ ''Ethernet'' @ [squote] @ '': boom'')"
    by (simp add: adapter_restart world_with_def)
  have q: "printed (trace (snd (run_actions [''restart'', ''godmode''] False True
                             (world_with adapter_os [''1'', ''x''])))) =
     [''Network adapters:'', '' 1) Ethernet'',
      ''Restart '' @ [squote] @ ''Ethernet'' @ [squote] @ '' -> Command failed for ''
        @ [squote] @ ''Ethernet'' @ [squote] @ '': boom'',
      ''Desktop path not found: H'' @ [backslash] @ ''Desktop'']"
    by (simp add: adapter_pass)
  show ?thesis
    by (intro conjI) (rule broken_recycle r b broken_pass_printed adapter_never_raises l f p q)+
qed

section \<open>The canonical order\<close>

text \<open>
  Claim C1, as amended. For every selection the orchestrator performs the selected actions in
  the canonical order clean-temp, empty-recycle, optimize-tcp, restart-adapters, show-wifi,
  create-godmode: a pass over a non-empty selection is the performing, one after the other,
  of its schedule, each action behind its confirmation gate. The order in which the actions
  were selected, and how often, plays no part: two selections with the same members give the
  same pass. The schedule is a subsequence of the canonical order, and create-godmode, when
  selected, is its last action. An action that is declined at its gate, or an adapter that
  is declined in the adapter loop, only prints that it was skipped, and the pass goes on with
  what follows. The witness is the menu answer "2,1", which selects empty-recycle before
  clean-temp and still cleans the temp directory first.
\<close>

theorem run_actions_canonical_order:
  "run_actions actions dry_run assume_yes
     = (if actions = [] then py_print ''No actions selected.''
        else run_in_order (schedule actions) dry_run assume_yes)
   \<and> (set actions = set actions' \<longrightarrow>
        run_actions actions dry_run assume_yes = run_actions actions' dry_run assume_yes)
   \<and> subseq (schedule actions) canonical_order
   \<and> (''godmode'' \<in> set actions \<longrightarrow> last (schedule actions) = ''godmode'')
   \<and> (ensure_confirm ''Proceed to clean %TEMP%?'' assume_yes w = (Inr False, w1) \<longrightarrow>
        seq (step_temp dry_run assume_yes) rest w = rest (log (Print ''Skipped %TEMP% cleanup.'') w1))
   \<and> (ensure_confirm ''Proceed to empty the Recycle Bin?'' assume_yes w = (Inr False, w1) \<longrightarrow>
        seq (step_recycle dry_run assume_yes) rest w = rest (log (Print ''Skipped Recycle Bin empty.'') w1))
   \<and> (ensure_confirm ''Proceed to apply TCP optimizations? (may require admin)'' assume_yes w
          = (Inr False, w1) \<longrightarrow>
        seq (step_tcp dry_run assume_yes) rest w = rest (log (Print ''Skipped TCP optimizations.'') w1))
   \<and> (ensure_confirm (''Proceed to list '' @ wi_fi
          @ '' profiles and passwords? (requires appropriate privileges)'') assume_yes w
          = (Inr False, w1) \<longrightarrow>
        seq (step_wifi dry_run assume_yes) rest w
          = rest (log (Print (''Skipped '' @ wi_fi @ '' password listing.'')) w1))
   \<and> (ensure_confirm ''Create God Mode folder on Desktop?'' assume_yes w = (Inr False, w1) \<longrightarrow>
        seq (step_godmode dry_run assume_yes) rest w = rest (log (Print ''Skipped God Mode creation.'') w1))
   \<and> (ensure_confirm (''Restart adapter '' @ [squote] @ name @ [squote]
          @ ''? This will briefly disconnect network.'') assume_yes w = (Inr False, w1) \<longrightarrow>
        restart_each dry_run assume_yes (name # names) w
          = restart_each dry_run assume_yes names
              (log (Print (''Skipped restarting '' @ [squote] @ name @ [squote] @ ''.'')) w1))"
proof (intro conjI)
  show "run_actions actions dry_run assume_yes
     = (if actions = [] then py_print ''No actions selected.''
        else run_in_order (schedule actions) dry_run assume_yes)"
    using run_actions_in_order by (simp add: run_actions_def)
  show "subseq (schedule actions) canonical_order"
    by (simp add: schedule_def)
  show "set actions = set actions' \<longrightarrow>
        run_actions actions dry_run assume_yes = run_actions actions' dry_run assume_yes"
    using run_actions_set by blast
  show "''godmode'' \<in> set actions \<longrightarrow> last (schedule actions) = ''godmode''"
    by (simp add: schedule_def canonical_order_def)
qed (simp_all add: step_temp_def step_recycle_def step_tcp_def step_wifi_def step_godmode_def io_defs)

theorem run_actions_canonical_order_witness:
  "fst (interactive_menu (world_with quiet_os [''2,1''])) = Inr [''recycle'', ''temp'']
   \<and> set [''recycle'', ''temp''] = set [''temp'', ''recycle'']
   \<and> run_actions [''recycle'', ''temp''] True True = run_actions [''temp'', ''recycle''] True True
   \<and> schedule [''recycle'', ''temp''] = [''temp'', ''recycle'']
   \<and> printed (trace (snd (run_actions [''recycle'', ''temp''] True True (world_with quiet_os []))))
     = [''Clean %TEMP% -> Temp directory '' @ [squote] @ ''T'' @ [squote] @ '' does not exist.'',
        ''Empty Recycle Bin -> Dry-run: would call SHEmptyRecycleBinW for all drives.'']
   \<and> ''godmode'' \<in> set [''godmode'', ''temp'']
   \<and> last (schedule [''godmode'', ''temp'']) = ''godmode''"
proof -
  have s: "set [''recycle'', ''temp''] = set [''temp'', ''recycle'']" by auto
  note t = run_actions_canonical_order [of "[''recycle'', ''temp'']" True True "[''temp'', ''recycle'']"]
  have e: "run_actions [''recycle'', ''temp''] True True = run_actions [''temp'', ''recycle''] True True"
    by (rule t [THEN conjunct2, THEN conjunct1, THEN mp, OF s])
  have m: "''godmode'' \<in> set [''godmode'', ''temp'']" by simp
  have g: "last (schedule [''godmode'', ''temp'']) = ''godmode''"
    by (rule run_actions_canonical_order [of "[''godmode'', ''temp'']", THEN conjunct2, THEN conjunct2,
          THEN conjunct2, THEN conjunct1, THEN mp, OF m])
  have d: "schedule [''recycle'', ''temp''] = [''temp'', ''recycle'']"
    by (simp add: schedule_def canonical_order_def)
  have p: "printed (trace (snd (run_actions [''recycle'', ''temp''] True True (world_with quiet_os []))))
     = [''Clean %TEMP% -> Temp directory '' @ [squote] @ ''T'' @ [squote] @ '' does not exist.'',
        ''Empty Recycle Bin -> Dry-run: would call SHEmptyRecycleBinW for all drives.'']"
    unfolding e by (rule quiet_temp_recycle)
  show ?thesis
    by (intro conjI) (rule menu_2_1 s e d p m g)+
qed

text \<open>
  The claim as stated also puts restart-adapters always last. It is not: show-wifi comes
  after it. With both selected, on a system with one adapter, the adapter is dealt with
  first and the Wi-Fi profiles are listed afterwards.
\<close>

theorem restart_adapters_not_last_counterexample:
  "schedule [''wifi'', ''restart''] = [''restart'', ''wifi'']
   \<and> printed (trace (snd (run_actions [''wifi'', ''restart''] True True (world_with adapter_os [''all'']))))
     = [''Network adapters:'', '' 1) Ethernet'',
        ''Restart '' @ [squote] @ ''Ethernet'' @ [squote] @ '' -> Dry-run: would restart adapter ''
          @ [squote] @ ''Ethernet'' @ [squote] @ ''.'',
        wi_fi @ '' profiles & passwords ->'',
        ''Dry-run: would list saved Wi-Fi profiles and their passwords.'']"
  by (simp add: schedule_def canonical_order_def adapter_dry_pass)

section \<open>Flag mode\<close>

text \<open>
  Claim C3, as amended. Flag mode is entered exactly when one of the six action flags
  \<^verbatim>\<open>--clean-temp\<close>, \<^verbatim>\<open>--empty-recycle\<close>, \<^verbatim>\<open>--optimize-tcp\<close>,
  \<^verbatim>\<open>--restart-adapters\<close>, \<^verbatim>\<open>--show-wifi\<close>, \<^verbatim>\<open>--all\<close> is present. The program then
  is one pass of the orchestrator over the actions of the flags, which are never empty, and
  nothing else: no menu, no further prompt, no second pass; when the pass returns the exit
  code is 0, and a fault of the pass goes on to the caller. \<^verbatim>\<open>--all\<close> selects the six
  actions of the canonical order, create-godmode included; otherwise each flag selects its
  action. On a system whose process calls never raise, the program ends with exit code 0
  whatever the actions report; the one exception is the end of input at the prompt of the
  adapter sub-flow. Without an action flag the program is the interactive loop. The witness
  is the command line \<^verbatim>\<open>--clean-temp --dry-run --yes\<close>: one action, no prompt, a
  simulated count, exit code 0.
\<close>

theorem main_flag_mode:
  "(cli_flags a \<longleftrightarrow> arg_clean_temp a \<or> arg_empty_recycle a \<or> arg_optimize_tcp a
                      \<or> arg_restart_adapters a \<or> arg_show_wifi a \<or> arg_all a)
   \<and> (cli_flags a \<longrightarrow>
        main a w = exit_with 0 (run_actions (flag_actions a) (arg_dry_run a) (arg_yes a) w)
        \<and> flag_actions a \<noteq> [])
   \<and> (arg_all a \<longrightarrow> flag_actions a = canonical_order)
   \<and> (\<not> arg_all a \<longrightarrow>
        flag_actions a
          = filter (\<lambda>x. (x = ''temp'' \<and> arg_clean_temp a) \<or> (x = ''recycle'' \<and> arg_empty_recycle a)
                        \<or> (x = ''tcp'' \<and> arg_optimize_tcp a) \<or> (x = ''restart'' \<and> arg_restart_adapters a)
                        \<or> (x = ''wifi'' \<and> arg_show_wifi a))
              canonical_order)
   \<and> (cli_flags a \<and> never_raises (os w) \<longrightarrow>
        (\<exists>w1. main a w = Some (Inr 0, w1))
        \<or> (\<exists>w1. main a w = Some (Inl EOFError, w1) \<and> stdin w1 = []
                 \<and> (arg_all a \<or> arg_restart_adapters a)))
   \<and> (\<not> cli_flags a \<longrightarrow>
        main a w = interactive_loop (arg_dry_run a) (arg_yes a) (w\<lparr>launched_interactive := True\<rparr>))"
proof (intro conjI)
  show "cli_flags a \<longleftrightarrow> arg_clean_temp a \<or> arg_empty_recycle a \<or> arg_optimize_tcp a
                      \<or> arg_restart_adapters a \<or> arg_show_wifi a \<or> arg_all a"
    by (simp add: cli_flags_def)
  show "cli_flags a \<longrightarrow>
        main a w = exit_with 0 (run_actions (flag_actions a) (arg_dry_run a) (arg_yes a) w)
        \<and> flag_actions a \<noteq> []"
    by (simp add: main_def exit_with_def flag_actions_not_empty)
  show "arg_all a \<longrightarrow> flag_actions a = canonical_order"
    by (simp add: flag_actions_def canonical_order_def)
  show "\<not> arg_all a \<longrightarrow>
        flag_actions a
          = filter (\<lambda>x. (x = ''temp'' \<and> arg_clean_temp a) \<or> (x = ''recycle'' \<and> arg_empty_recycle a)
                        \<or> (x = ''tcp'' \<and> arg_optimize_tcp a) \<or> (x = ''restart'' \<and> arg_restart_adapters a)
                        \<or> (x = ''wifi'' \<and> arg_show_wifi a))
              canonical_order"
    using flag_actions_members by blast
  show "cli_flags a \<and> never_raises (os w) \<longrightarrow>
        (\<exists>w1. main a w = Some (Inr 0, w1))
        \<or> (\<exists>w1. main a w = Some (Inl EOFError, w1) \<and> stdin w1 = []
                 \<and> (arg_all a \<or> arg_restart_adapters a))"
    using flag_pass_ends by blast
  show "\<not> cli_flags a \<longrightarrow>
        main a w = interactive_loop (arg_dry_run a) (arg_yes a) (w\<lparr>launched_interactive := True\<rparr>)"
    by (simp add: main_def)
qed

theorem main_flag_mode_witness:
  "cli_flags (no_flags\<lparr>arg_clean_temp := True, arg_dry_run := True, arg_yes := True\<rparr>)
   \<and> flag_actions (no_flags\<lparr>arg_clean_temp := True, arg_dry_run := True, arg_yes := True\<rparr>) = [''temp'']
   \<and> main (no_flags\<lparr>arg_clean_temp := True, arg_dry_run := True, arg_yes := True\<rparr>)
        (world_with (temp_os False) [])
     = Some (Inr 0, (world_with (temp_os False) [])\<lparr>trace :=
          [Call (PathExists ''T''), Call (Walk ''T''), Write clear_line,
           Print ''Clean %TEMP% -> Planned deletions: 3. Failed deletions: 0.'']\<rparr>)
   \<and> arg_all (no_flags\<lparr>arg_all := True\<rparr>)
   \<and> flag_actions (no_flags\<lparr>arg_all := True\<rparr>)
     = [''temp'', ''recycle'', ''tcp'', ''restart'', ''wifi'', ''godmode'']"
proof -
  let ?a = "no_flags\<lparr>arg_clean_temp := True, arg_dry_run := True, arg_yes := True\<rparr>"
  let ?w = "world_with (temp_os False) []"
  have c: "cli_flags ?a"
    by (simp add: cli_flags_def no_flags_def)
  have f: "flag_actions ?a = [''temp'']"
    by (simp add: flag_actions_def no_flags_def)
  have d: "arg_dry_run ?a = True" "arg_yes ?a = True"
    by (simp_all add: no_flags_def)
  have "main ?a ?w = exit_with 0 (run_actions (flag_actions ?a) (arg_dry_run ?a) (arg_yes ?a) ?w)"
    by (rule main_flag_mode [of ?a ?w, THEN conjunct2, THEN conjunct1, THEN mp, OF c, THEN conjunct1])
  then have m: "main ?a ?w
     = Some (Inr 0, (world_with (temp_os False) [])\<lparr>trace :=
          [Call (PathExists ''T''), Call (Walk ''T''), Write clear_line,
           Print ''Clean %TEMP% -> Planned deletions: 3. Failed deletions: 0.'']\<rparr>)"
    unfolding f d temp_dry_pass by (simp add: exit_with_def)
  have l: "arg_all (no_flags\<lparr>arg_all := True\<rparr>)"
    by simp
  have "flag_actions (no_flags\<lparr>arg_all := True\<rparr>) = canonical_order"
    by (rule main_flag_mode [of "no_flags\<lparr>arg_all := True\<rparr>", THEN conjunct2, THEN conjunct2,
          THEN conjunct1, THEN mp, OF l])
  then have g: "flag_actions (no_flags\<lparr>arg_all := True\<rparr>)
     = [''temp'', ''recycle'', ''tcp'', ''restart'', ''wifi'', ''godmode'']"
    by (simp add: canonical_order_def)
  show ?thesis
    by (intro conjI) (rule c f m l g)+
qed

text \<open>
  The claim as stated lets any recognized flag select flag mode. \<^verbatim>\<open>--yes\<close> and
  \<^verbatim>\<open>--dry-run\<close> do not: with \<^verbatim>\<open>--yes\<close> alone the menu is shown and the selection is
  read from the input; here two empty answers end the program without any pass.
\<close>

theorem modifier_flag_opens_menu_counterexample:
  "arg_yes (no_flags\<lparr>arg_yes := True\<rparr>)
   \<and> main (no_flags\<lparr>arg_yes := True\<rparr>) (world_with quiet_os [[], []])
     = Some (Inr 0,
         \<lparr>os = quiet_os, stdin = [],
          trace = map Print menu_lines
            @ [Prompt ''Selection (e.g. 1,2): '',
               Prompt (''No actions selected. Press Enter to exit, or type '' @ [squote] @ ''r''
                       @ [squote] @ '' to return to the menu: '')],
          launched_interactive = True\<rparr>)"
proof -
  have a: "\<not> cli_flags (no_flags\<lparr>arg_yes := True\<rparr>)"
    by (simp add: cli_flags_def no_flags_def)
  have "interactive_loop False True ((world_with quiet_os [[], []])\<lparr>launched_interactive := True\<rparr>)
     = Some (Inr 0,
         \<lparr>os = quiet_os, stdin = [],
          trace = map Print menu_lines
            @ [Prompt ''Selection (e.g. 1,2): '',
               Prompt (''No actions selected. Press Enter to exit, or type '' @ [squote] @ ''r''
                       @ [squote] @ '' to return to the menu: '')],
          launched_interactive = True\<rparr>)"
    by (subst interactive_loop.simps)
       (simp add: menu_empty_answer py_input_def log_def text_defs Let_def world_with_def)
  with a show ?thesis
    by (simp add: main_def no_flags_def)
qed

end
